theory Spec2Isabelle
  imports Main
begin

section \<open>PureMVC core: Model, View, Controller and the singleton discipline\<close>

text \<open>
  The classes \<open>Controller\<close>, \<open>Model\<close> and \<open>View\<close> (compiled, in
  \<^verbatim>\<open>src/bin/cjs/core/Controller.js\<close>) are embedded method by method, and of \<open>Facade\<close>
  (in \<^verbatim>\<open>src/bin/cjs/patterns/observer/Notifier.js\<close>) the constructor, the
  initialisation it runs and \<open>getInstance\<close>.

  The registries are JavaScript objects created by \<open>{}\<close> and used as dictionaries. A
  lookup \<open>map[name]\<close> in such an object yields the object's own property of that name
  when it has one, and otherwise what the object inherits under that name from its
  prototype, which is \<open>Object.prototype\<close>; only when there is neither is the lookup
  \<open>undefined\<close>. Arrays are lists; the only array that is edited in place while
  something else refers to it is the observer list stored in \<open>observerMap\<close>, so the
  edited list is written back under its key. A JavaScript exception leaves the
  mutations made before it in place, so every operation that can throw returns the
  completion (\<open>Inl\<close> the error) together with the state at that moment.
\<close>

subsection \<open>Data\<close>

datatype error =
    TypeError          \<comment> \<open>reading a property of \<open>undefined\<close>, calling what is no function\<close>
  | Error string       \<comment> \<open>\<open>throw Error(message)\<close>\<close>

text \<open>
  Mediators, proxies and command factories are objects supplied by the application. The
  framework only reads \<open>name\<close> from them, compares them by identity and calls their
  methods; an object is therefore its name together with an identity.
\<close>

record mediator =
  mediatorName :: string
  mediatorId :: nat

record proxy =
  proxyName :: string
  proxyId :: nat

type_synonym factory = nat

text \<open>
  Modelled from the spec: the \<open>Notification\<close> class (\<^verbatim>\<open>Notification.js\<close> is not among
  the sources). It is the envelope \<open>{name, body, type}\<close>; the body is an opaque
  reference owned by the application.
\<close>

record notification =
  name :: string
  body :: nat
  type :: "string option"

text \<open>The context of an observer is an object, compared by identity.\<close>

datatype object =
    TheController                \<comment> \<open>the \<open>Controller\<close> singleton (\<open>this\<close> in \<open>registerCommand\<close>)\<close>
  | TheMediator mediator
  | OtherObject nat

text \<open>The function held by an observer.\<close>

datatype handler =
    ExecuteCommand               \<comment> \<open>\<open>Controller.executeCommand\<close>\<close>
  | HandleNotification mediator  \<comment> \<open>\<open>mediator.handleNotification\<close>\<close>
  | OtherHandler nat

text \<open>
  Modelled from the spec: the \<open>Observer\<close> class (\<^verbatim>\<open>Observer.js\<close> is not among the
  sources): a handler bound to a context; \<open>compareNotifyContext\<close> is true iff the
  argument is identity-equal to the stored context.
\<close>

record observer =
  notify :: handler
  ctx :: object

definition Observer :: "handler \<Rightarrow> object \<Rightarrow> observer" where
  "Observer h c = \<lparr>notify = h, ctx = c\<rparr>"

definition compareNotifyContext :: "observer \<Rightarrow> object \<Rightarrow> bool" where
  "compareNotifyContext ob c = (ctx ob = c)"

text \<open>
  The calls that framework code makes on application objects and on observers. The
  state keeps them in \<open>calls\<close>, in the order in which they were made.
\<close>

datatype call =
    Notify observer notification       \<comment> \<open>\<open>observers[i].notifyObserver(notification)\<close>\<close>
  | ListNotificationInterests mediator \<comment> \<open>\<open>mediator.listNotificationInterests()\<close>\<close>
  | OnRegister mediator                \<comment> \<open>\<open>mediator.onRegister()\<close>\<close>
  | OnRemove mediator                  \<comment> \<open>\<open>mediator.onRemove()\<close>\<close>
  | ProxyOnRegister proxy              \<comment> \<open>\<open>proxy.onRegister()\<close>\<close>
  | ProxyOnRemove proxy                \<comment> \<open>\<open>proxy.onRemove()\<close>\<close>
  | Execute factory notification       \<comment> \<open>\<open>factory().execute(notification)\<close>\<close>

subsection \<open>Objects used as dictionaries\<close>

text \<open>
  What a lookup \<open>map[name]\<close> in a registry can yield: \<open>undefined\<close>, a value of the kind
  that the registry stores, or some other value. Of another value the code observes
  only whether it is a function, its \<open>length\<close> and whether it is falsy; it has none of
  the methods that the code calls on a stored value.
\<close>

datatype other =
    Function nat     \<comment> \<open>a function, with its \<open>length\<close>\<close>
  | Object           \<comment> \<open>an object that is no function and has no \<open>length\<close>\<close>
  | Falsy            \<comment> \<open>a falsy value other than \<open>null\<close> and \<open>undefined\<close>, such as \<open>0\<close> or \<open>false\<close>\<close>

datatype 'v found =
    Undefined        \<comment> \<open>\<open>undefined\<close>, and \<open>null\<close> as a result\<close>
  | Value 'v
  | Other other

text \<open>\<open>x.length\<close> of such another value: a function has one.\<close>

definition lengthOf :: "other \<Rightarrow> nat option" where
  "lengthOf x = (case x of Function k \<Rightarrow> Some k | _ \<Rightarrow> None)"

text \<open>
  The properties of \<open>Object.prototype\<close> (ECMAScript, with its annex B), which every
  object created by \<open>{}\<close> inherits: eleven functions, each with its \<open>length\<close>, and the
  accessor \<open>__proto__\<close>, whose value is the prototype of the object asked, here
  \<open>Object.prototype\<close> itself.
\<close>

definition objectPrototype :: "string \<rightharpoonup> other" where
  "objectPrototype = map_of
     [(''constructor'', Function 1),
      (''hasOwnProperty'', Function 1),
      (''isPrototypeOf'', Function 1),
      (''propertyIsEnumerable'', Function 1),
      (''toLocaleString'', Function 0),
      (''toString'', Function 0),
      (''valueOf'', Function 0),
      (''__defineGetter__'', Function 2),
      (''__defineSetter__'', Function 2),
      (''__lookupGetter__'', Function 1),
      (''__lookupSetter__'', Function 1),
      (''__proto__'', Object)]"

definition inherited :: "string \<Rightarrow> 'v found" where
  "inherited n = (case objectPrototype n of None \<Rightarrow> Undefined | Some x \<Rightarrow> Other x)"

text \<open>\<open>map[n]\<close> for a registry with the own properties \<open>m\<close> and the prototype \<open>Object.prototype\<close>.\<close>

definition lookup :: "(string \<rightharpoonup> 'v) \<Rightarrow> string \<Rightarrow> 'v found" where
  "lookup m n = (case m n of Some v \<Rightarrow> Value v | None \<Rightarrow> inherited n)"

definition truthy :: "'v found \<Rightarrow> bool" where
  "truthy x = (x \<noteq> Undefined \<and> x \<noteq> Other Falsy)"

text \<open>\<open>x || null\<close>\<close>

definition orNull :: "'v found \<Rightarrow> 'v found" where
  "orNull x = (if truthy x then x else Undefined)"

subsection \<open>State and application code\<close>

text \<open>
  The state of the core: the fields of the \<open>Model\<close>, \<open>View\<close> and \<open>Controller\<close>
  singletons, the application's own state \<open>app\<close> (which only application code reads and
  writes), and the record of calls. The four maps hold the own properties of the four
  registries.

  An assignment \<open>map[''__proto__''] = v\<close> of an object \<open>v\<close> to a registry that has
  no own property of that name creates none: it runs the setter of the accessor
  \<open>__proto__\<close>, which makes \<open>v\<close> the prototype of the registry. \<open>registerProxy\<close> and
  \<open>registerCommand\<close> assign under any name, so the prototypes of \<open>proxyMap\<close> and
  \<open>commandMap\<close> are part of the state: \<open>None\<close> while it is \<open>Object.prototype\<close>, and
  \<open>Some v\<close> once it is the proxy or the factory \<open>v\<close>. The two registries of the \<open>View\<close>
  are assigned only under names whose lookup is \<open>undefined\<close>, which \<open>__proto__\<close> never
  is, so their prototype stays \<open>Object.prototype\<close>.
\<close>

record 'u core =
  proxyMap :: "string \<rightharpoonup> proxy"
  proxyMap_prototype :: "proxy option"
  mediatorMap :: "string \<rightharpoonup> mediator"
  observerMap :: "string \<rightharpoonup> observer list"
  commandMap :: "string \<rightharpoonup> factory"
  commandMap_prototype :: "factory option"
  app :: 'u
  calls :: "call list"

type_synonym ('a, 'u) outcome = "(error + 'a) \<times> 'u core"

text \<open>
  Application code. \<open>react c\<close> is what the application does when the framework makes
  the call \<open>c\<close> on one of its objects: any change of the state, through the public
  operations or to its own \<open>app\<close>, and either a normal return or an exception.
  \<open>listNotificationInterests\<close> is the mediator's method of that name: application code
  as well, which returns the list of names or throws, and whose answer may depend on
  the moment at which it is asked. \<open>proxyProperty p n\<close> and \<open>factoryProperty f n\<close> are
  what the application's objects \<open>p\<close> and \<open>f\<close> have under the property name \<open>n\<close>, own or
  inherited; the framework reads them only through a registry of which the object has
  become the prototype.
\<close>

record 'u application =
  listNotificationInterests :: "mediator \<Rightarrow> 'u core \<Rightarrow> (string list, 'u) outcome"
  react :: "call \<Rightarrow> 'u core \<Rightarrow> (unit, 'u) outcome"
  proxyProperty :: "proxy \<Rightarrow> string \<Rightarrow> proxy found"
  factoryProperty :: "factory \<Rightarrow> string \<Rightarrow> factory found"

text \<open>
  A call into application code: the call is recorded and the application runs. The
  record \<open>calls\<close> belongs to the caller: it lists the calls that the running operation
  itself makes, not those made inside the application code it has called.
\<close>

definition called :: "call \<Rightarrow> 'u core \<Rightarrow> 'u core" where
  "called c s = s\<lparr>calls := calls s @ [c]\<rparr>"

definition callout :: "'u application \<Rightarrow> call \<Rightarrow> 'u core \<Rightarrow> (unit, 'u) outcome" where
  "callout a c s = (case react a c s of (r, s') \<Rightarrow> (r, s'\<lparr>calls := calls s @ [c]\<rparr>))"

text \<open>\<open>mediator.listNotificationInterests()\<close>, as the framework calls it.\<close>

definition interestsOf :: "'u application \<Rightarrow> mediator \<Rightarrow> 'u core \<Rightarrow> (string list, 'u) outcome" where
  "interestsOf a m s =
     (case listNotificationInterests a m s of
        (r, s') \<Rightarrow> (r, s'\<lparr>calls := calls s @ [ListNotificationInterests m]\<rparr>))"

definition initial :: "'u \<Rightarrow> 'u core" where
  "initial u = \<lparr>proxyMap = Map.empty, proxyMap_prototype = None, mediatorMap = Map.empty,
     observerMap = Map.empty, commandMap = Map.empty, commandMap_prototype = None,
     app = u, calls = []\<rparr>"

text \<open>\<open>this.proxyMap[n]\<close> and \<open>this.commandMap[n]\<close>.\<close>

definition lookupProxy :: "'u application \<Rightarrow> 'u core \<Rightarrow> string \<Rightarrow> proxy found" where
  "lookupProxy a s n =
     (case proxyMap s n of
        Some p \<Rightarrow> Value p
      | None \<Rightarrow>
          (case proxyMap_prototype s of
             None \<Rightarrow> inherited n
           | Some p \<Rightarrow> if n = ''__proto__'' then Value p else proxyProperty a p n))"

definition lookupCommand :: "'u application \<Rightarrow> 'u core \<Rightarrow> string \<Rightarrow> factory found" where
  "lookupCommand a s n =
     (case commandMap s n of
        Some f \<Rightarrow> Value f
      | None \<Rightarrow>
          (case commandMap_prototype s of
             None \<Rightarrow> inherited n
           | Some f \<Rightarrow> if n = ''__proto__'' then Value f else factoryProperty a f n))"

text \<open>
  \<open>this.proxyMap[n] = p\<close> and \<open>this.commandMap[n] = f\<close>. An own property of the
  name is overwritten. Without one, the name \<open>__proto__\<close> reaches the setter, and
  under any other name the assignment creates the own property; this takes an object
  that has become the prototype of the registry to have no setter and no read-only
  property under a name that is assigned afterwards.
\<close>

definition assignProxy :: "string \<Rightarrow> proxy \<Rightarrow> 'u core \<Rightarrow> 'u core" where
  "assignProxy n p s =
     (if n = ''__proto__'' \<and> proxyMap s n = None then s\<lparr>proxyMap_prototype := Some p\<rparr>
      else s\<lparr>proxyMap := (proxyMap s)(n \<mapsto> p)\<rparr>)"

definition assignCommand :: "string \<Rightarrow> factory \<Rightarrow> 'u core \<Rightarrow> 'u core" where
  "assignCommand n f s =
     (if n = ''__proto__'' \<and> commandMap s n = None then s\<lparr>commandMap_prototype := Some f\<rparr>
      else s\<lparr>commandMap := (commandMap s)(n \<mapsto> f)\<rparr>)"

subsection \<open>View\<close>

text \<open>
  \<open>registerObserver\<close> calls \<open>push\<close> on whatever the lookup yields that is not \<open>null\<close>;
  a value that is no array has no \<open>push\<close>.
\<close>

definition registerObserver :: "string \<Rightarrow> observer \<Rightarrow> 'u core \<Rightarrow> (unit, 'u) outcome" where
  "registerObserver notificationName ob s =
     (case lookup (observerMap s) notificationName of
        Value observers \<Rightarrow>
          (Inr (), s\<lparr>observerMap := (observerMap s)(notificationName \<mapsto> observers @ [ob])\<rparr>)
      | Other x \<Rightarrow> (Inl TypeError, s)
      | Undefined \<Rightarrow>
          (Inr (), s\<lparr>observerMap := (observerMap s)(notificationName \<mapsto> [ob])\<rparr>))"

text \<open>\<open>observers.splice(i, 1)\<close>\<close>

definition splice1 :: "'a list \<Rightarrow> nat \<Rightarrow> 'a list" where
  "splice1 xs i = take i xs @ drop (Suc i) xs"

text \<open>The scan of \<open>removeObserver\<close>: remove the first match and break.\<close>

function removeObserver_scan :: "object \<Rightarrow> observer list \<Rightarrow> nat \<Rightarrow> observer list" where
  "removeObserver_scan notifyContext observers i =
     (if i < length observers then
        (if compareNotifyContext (observers ! i) notifyContext then splice1 observers i
         else removeObserver_scan notifyContext observers (i + 1))
      else observers)"
  by pat_completeness auto
termination
  by (relation "measure (\<lambda>(c, observers, i). length observers - i)") auto

text \<open>
  \<open>removeObserver\<close> uses the looked-up value without a test. On \<open>undefined\<close>, reading
  \<open>length\<close> throws a \<open>TypeError\<close>. On another value of length \<open>k > 0\<close> the loop is
  entered and \<open>observers[0]\<close> is \<open>undefined\<close>, so the call of \<open>compareNotifyContext\<close>
  throws. On one of length \<open>0\<close> the loop is not entered and \<open>delete\<close> finds no own
  property to delete. On one without \<open>length\<close> both comparisons with \<open>undefined\<close> are
  false.
\<close>

definition removeObserver :: "string \<Rightarrow> object \<Rightarrow> 'u core \<Rightarrow> (unit, 'u) outcome" where
  "removeObserver notificationName notifyContext s =
     (case lookup (observerMap s) notificationName of
        Undefined \<Rightarrow> (Inl TypeError, s)
      | Value observers \<Rightarrow>
          (let observers' = removeObserver_scan notifyContext observers 0 in
           if length observers' = 0 then
             (Inr (), s\<lparr>observerMap := (observerMap s)(notificationName := None)\<rparr>)
           else
             (Inr (), s\<lparr>observerMap := (observerMap s)(notificationName \<mapsto> observers')\<rparr>))
      | Other x \<Rightarrow>
          (case lengthOf x of
             Some k \<Rightarrow> if 0 < k then (Inl TypeError, s) else (Inr (), s)
           | None \<Rightarrow> (Inr (), s)))"

text \<open>
  \<open>Controller.executeCommand\<close>, placed here because the observers that
  \<open>registerCommand\<close> installs hold it as their handler. The factory call and the
  \<open>execute\<close> call on the fresh command are one uninterrupted piece of application
  code, recorded as the single call \<open>Execute factory notification\<close>. A looked-up value
  that is no factory is either no function, or a function of \<open>Object.prototype\<close> or
  \<open>Function.prototype\<close>, which called without \<open>this\<close> throws or returns a value that has
  no \<open>execute\<close>.
\<close>

definition executeCommand :: "'u application \<Rightarrow> notification \<Rightarrow> 'u core \<Rightarrow> (unit, 'u) outcome" where
  "executeCommand a notification s =
     (case lookupCommand a s (name notification) of
        Undefined \<Rightarrow> (Inr (), s)
      | Value factory \<Rightarrow> callout a (Execute factory notification) s
      | Other x \<Rightarrow> (Inl TypeError, s))"

text \<open>
  Modelled from the spec: \<open>Observer.notifyObserver\<close> invokes the stored handler with
  the notification, bound to the stored context. When the handler is
  \<open>Controller.executeCommand\<close> the code that runs is the framework's own; bound to an
  object that is not the controller it reads \<open>this.commandMap\<close> of an object that has
  none. Every other handler is application code.
\<close>

definition notifyObserver :: "'u application \<Rightarrow> observer \<Rightarrow> notification \<Rightarrow> 'u core \<Rightarrow> (unit, 'u) outcome" where
  "notifyObserver a ob notification s =
     (case notify ob of
        ExecuteCommand \<Rightarrow>
          (if ctx ob = TheController
           then executeCommand a notification (called (Notify ob notification) s)
           else (Inl TypeError, called (Notify ob notification) s))
      | HandleNotification m \<Rightarrow> callout a (Notify ob notification) s
      | OtherHandler h \<Rightarrow> callout a (Notify ob notification) s)"

text \<open>
  The loop of \<open>notifyObservers\<close> over the working array \<open>observers\<close>, from index \<open>i\<close>.
  An exception of a handler leaves the loop.
\<close>

function notifyObservers_loop ::
  "'u application \<Rightarrow> notification \<Rightarrow> observer list \<Rightarrow> nat \<Rightarrow> 'u core \<Rightarrow> (unit, 'u) outcome" where
  "notifyObservers_loop a notification observers i s =
     (if i < length observers then
        (case notifyObserver a (observers ! i) notification s of
           (Inl e, s') \<Rightarrow> (Inl e, s')
         | (Inr u, s') \<Rightarrow> notifyObservers_loop a notification observers (i + 1) s')
      else (Inr (), s))"
  by pat_completeness auto
termination
  by (relation "measure (\<lambda>(a, n, observers, i, s). length observers - i)") auto

text \<open>
  \<open>slice()\<close> copies the array, so the working array is the list as it is when the call
  starts; lists are values, and the copy is the list itself. A looked-up value that is
  not \<open>null\<close> and no array has no \<open>slice\<close>.
\<close>

definition notifyObservers :: "'u application \<Rightarrow> notification \<Rightarrow> 'u core \<Rightarrow> (unit, 'u) outcome" where
  "notifyObservers a notification s =
     (case lookup (observerMap s) (name notification) of
        Undefined \<Rightarrow> (Inr (), s)
      | Value l \<Rightarrow>
          (let observers = l in
           notifyObservers_loop a notification observers 0 s)
      | Other x \<Rightarrow> (Inl TypeError, s))"

text \<open>The loop of \<open>registerMediator\<close> over the interests; an exception leaves it.\<close>

fun registerMediator_loop :: "string list \<Rightarrow> observer \<Rightarrow> 'u core \<Rightarrow> (unit, 'u) outcome" where
  "registerMediator_loop [] ob s = (Inr (), s)"
| "registerMediator_loop (interest # interests) ob s =
     (case registerObserver interest ob s of
        (Inl e, s') \<Rightarrow> (Inl e, s')
      | (Inr u, s') \<Rightarrow> registerMediator_loop interests ob s')"

definition registerMediator :: "'u application \<Rightarrow> mediator \<Rightarrow> 'u core \<Rightarrow> (unit, 'u) outcome" where
  "registerMediator a m s =
     (if lookup (mediatorMap s) (mediatorName m) \<noteq> Undefined then (Inr (), s)
      else
        (let s1 = s\<lparr>mediatorMap := (mediatorMap s)(mediatorName m \<mapsto> m)\<rparr> in
         case interestsOf a m s1 of
           (Inl e, s2) \<Rightarrow> (Inl e, s2)
         | (Inr interests, s2) \<Rightarrow>
             (case (if length interests > 0
                    then registerMediator_loop interests
                           (Observer (HandleNotification m) (TheMediator m)) s2
                    else (Inr (), s2)) of
                (Inl e, s3) \<Rightarrow> (Inl e, s3)
              | (Inr u, s3) \<Rightarrow> callout a (OnRegister m) s3)))"

definition retrieveMediator :: "string \<Rightarrow> 'u core \<Rightarrow> mediator found" where
  "retrieveMediator mediatorName' s = orNull (lookup (mediatorMap s) mediatorName')"

definition hasMediator :: "string \<Rightarrow> 'u core \<Rightarrow> bool" where
  "hasMediator mediatorName' s = (lookup (mediatorMap s) mediatorName' \<noteq> Undefined)"

text \<open>The loop of \<open>removeMediator\<close> over the interests; an exception leaves it.\<close>

fun removeMediator_loop :: "string list \<Rightarrow> mediator \<Rightarrow> 'u core \<Rightarrow> (unit, 'u) outcome" where
  "removeMediator_loop [] m s = (Inr (), s)"
| "removeMediator_loop (interest # interests) m s =
     (case removeObserver interest (TheMediator m) s of
        (Inl e, s') \<Rightarrow> (Inl e, s')
      | (Inr u, s') \<Rightarrow> removeMediator_loop interests m s')"

text \<open>
  \<open>removeMediator\<close> calls \<open>listNotificationInterests\<close> on whatever the lookup yields
  that is not \<open>null\<close>; a value that is no mediator has no such method.
\<close>

definition removeMediator :: "'u application \<Rightarrow> string \<Rightarrow> 'u core \<Rightarrow> (mediator option, 'u) outcome" where
  "removeMediator a mediatorName' s =
     (case lookup (mediatorMap s) mediatorName' of
        Undefined \<Rightarrow> (Inr None, s)
      | Other x \<Rightarrow> (Inl TypeError, s)
      | Value m \<Rightarrow>
          (case interestsOf a m s of
             (Inl e, s1) \<Rightarrow> (Inl e, s1)
           | (Inr interests, s1) \<Rightarrow>
               (case removeMediator_loop interests m s1 of
                  (Inl e, s2) \<Rightarrow> (Inl e, s2)
                | (Inr u, s2) \<Rightarrow>
                    (case callout a (OnRemove m)
                            (s2\<lparr>mediatorMap := (mediatorMap s2)(mediatorName' := None)\<rparr>) of
                       (Inl e, s3) \<Rightarrow> (Inl e, s3)
                     | (Inr u', s3) \<Rightarrow> (Inr (Some m), s3)))))"

subsection \<open>Controller\<close>

text \<open>
  \<open>this.view\<close> is assigned by \<open>initializeController\<close> in the constructor, so the
  optional-call guards on it in \<open>registerCommand\<close> and \<open>removeCommand\<close> always take the
  call.
\<close>

definition registerCommand :: "'u application \<Rightarrow> string \<Rightarrow> factory \<Rightarrow> 'u core \<Rightarrow> (unit, 'u) outcome" where
  "registerCommand a notificationName factory s =
     (case (if lookupCommand a s notificationName = Undefined
            then registerObserver notificationName (Observer ExecuteCommand TheController) s
            else (Inr (), s)) of
        (Inl e, s1) \<Rightarrow> (Inl e, s1)
      | (Inr u, s1) \<Rightarrow> (Inr (), assignCommand notificationName factory s1))"

definition hasCommand :: "'u application \<Rightarrow> string \<Rightarrow> 'u core \<Rightarrow> bool" where
  "hasCommand a notificationName s = (lookupCommand a s notificationName \<noteq> Undefined)"

definition removeCommand :: "'u application \<Rightarrow> string \<Rightarrow> 'u core \<Rightarrow> (unit, 'u) outcome" where
  "removeCommand a notificationName s =
     (if hasCommand a notificationName s then
        (case removeObserver notificationName TheController s of
           (Inl e, s') \<Rightarrow> (Inl e, s')
         | (Inr u, s') \<Rightarrow>
             (Inr (), s'\<lparr>commandMap := (commandMap s')(notificationName := None)\<rparr>))
      else (Inr (), s))"

subsection \<open>Model\<close>

definition registerProxy :: "'u application \<Rightarrow> proxy \<Rightarrow> 'u core \<Rightarrow> (unit, 'u) outcome" where
  "registerProxy a p s = callout a (ProxyOnRegister p) (assignProxy (proxyName p) p s)"

definition retrieveProxy :: "'u application \<Rightarrow> string \<Rightarrow> 'u core \<Rightarrow> proxy found" where
  "retrieveProxy a proxyName' s = orNull (lookupProxy a s proxyName')"

definition hasProxy :: "'u application \<Rightarrow> string \<Rightarrow> 'u core \<Rightarrow> bool" where
  "hasProxy a proxyName' s = (lookupProxy a s proxyName' \<noteq> Undefined)"

text \<open>
  \<open>removeProxy\<close> returns \<open>null\<close> when the looked-up value is falsy. On any other value
  it deletes the own property of the name and calls \<open>onRemove\<close> on the value; a value
  that is no proxy has no such method.
\<close>

definition removeProxy :: "'u application \<Rightarrow> string \<Rightarrow> 'u core \<Rightarrow> (proxy option, 'u) outcome" where
  "removeProxy a proxyName' s =
     (case lookupProxy a s proxyName' of
        Undefined \<Rightarrow> (Inr None, s)
      | Other x \<Rightarrow>
          (if truthy (Other x :: proxy found)
           then (Inl TypeError, s\<lparr>proxyMap := (proxyMap s)(proxyName' := None)\<rparr>)
           else (Inr None, s))
      | Value p \<Rightarrow>
          (case callout a (ProxyOnRemove p) (s\<lparr>proxyMap := (proxyMap s)(proxyName' := None)\<rparr>) of
             (Inl e, s') \<Rightarrow> (Inl e, s')
           | (Inr u, s') \<Rightarrow> (Inr (Some p), s')))"

subsection \<open>Singleton discipline\<close>

text \<open>
  The static \<open>instance\<close> fields of the four classes, and the objects that the
  constructors initialise. An object is a reference into \<open>heap\<close>; \<open>new\<close> takes the next
  unused reference. A factory passed to \<open>getInstance\<close> is application code that
  returns a reference or throws; \<open>factoryCalls\<close> records, by class name, each
  invocation of a factory by \<open>getInstance\<close>.
\<close>

datatype heapObject =
    ModelObject "string \<rightharpoonup> proxy"
  | ViewObject "string \<rightharpoonup> mediator" "string \<rightharpoonup> observer list"
  | ControllerObject "string \<rightharpoonup> factory" "nat option"
  | FacadeObject "nat option" "nat option" "nat option"

record runtime =
  Model_instance :: "nat option"
  View_instance :: "nat option"
  Controller_instance :: "nat option"
  Facade_instance :: "nat option"
  heap :: "nat \<rightharpoonup> heapObject"
  allocated :: nat
  factoryCalls :: "string list"

type_synonym 'a constructing = "runtime \<Rightarrow> (error + 'a) \<times> runtime"

definition start :: runtime where
  "start = \<lparr>Model_instance = None, View_instance = None, Controller_instance = None,
     Facade_instance = None, heap = Map.empty, allocated = 0, factoryCalls = []\<rparr>"

definition Model_SINGLETON_MSG :: string where
  "Model_SINGLETON_MSG = ''Model Singleton already constructed!''"

definition View_SINGLETON_MSG :: string where
  "View_SINGLETON_MSG = ''View Singleton already constructed!''"

definition Controller_SINGLETON_MSG :: string where
  "Controller_SINGLETON_MSG = ''Controller Singleton already constructed!''"

definition Facade_SINGLETON_MSG :: string where
  "Facade_SINGLETON_MSG = ''Facade Singleton already constructed!''"

definition Model_constructor :: "nat constructing" where
  "Model_constructor rt =
     (if Model_instance rt \<noteq> None then (Inl (Error Model_SINGLETON_MSG), rt)
      else
        (let this = allocated rt;
             rt1 = rt\<lparr>allocated := Suc this, Model_instance := Some this\<rparr>
         in (Inr this, rt1\<lparr>heap := (heap rt1)(this \<mapsto> ModelObject Map.empty)\<rparr>)))"

definition Model_getInstance :: "nat constructing \<Rightarrow> nat constructing" where
  "Model_getInstance factory rt =
     (case Model_instance rt of
        None \<Rightarrow>
          (case factory (rt\<lparr>factoryCalls := factoryCalls rt @ [''Model'']\<rparr>) of
             (Inl e, rt') \<Rightarrow> (Inl e, rt')
           | (Inr r, rt') \<Rightarrow> (Inr r, rt'\<lparr>Model_instance := Some r\<rparr>))
      | Some r \<Rightarrow> (Inr r, rt))"

definition View_constructor :: "nat constructing" where
  "View_constructor rt =
     (if View_instance rt \<noteq> None then (Inl (Error View_SINGLETON_MSG), rt)
      else
        (let this = allocated rt;
             rt1 = rt\<lparr>allocated := Suc this, View_instance := Some this\<rparr>
         in (Inr this, rt1\<lparr>heap := (heap rt1)(this \<mapsto> ViewObject Map.empty Map.empty)\<rparr>)))"

definition View_getInstance :: "nat constructing \<Rightarrow> nat constructing" where
  "View_getInstance factory rt =
     (case View_instance rt of
        None \<Rightarrow>
          (case factory (rt\<lparr>factoryCalls := factoryCalls rt @ [''View'']\<rparr>) of
             (Inl e, rt') \<Rightarrow> (Inl e, rt')
           | (Inr r, rt') \<Rightarrow> (Inr r, rt'\<lparr>View_instance := Some r\<rparr>))
      | Some r \<Rightarrow> (Inr r, rt))"

text \<open>
  The \<open>Controller\<close> constructor ends with \<open>initializeController\<close>, which stores
  \<open>View.getInstance(() => new View())\<close> in \<open>this.view\<close>.
\<close>

definition Controller_constructor :: "nat constructing" where
  "Controller_constructor rt =
     (if Controller_instance rt \<noteq> None then (Inl (Error Controller_SINGLETON_MSG), rt)
      else
        (let this = allocated rt;
             rt1 = rt\<lparr>allocated := Suc this, Controller_instance := Some this\<rparr>;
             rt2 = rt1\<lparr>heap := (heap rt1)(this \<mapsto> ControllerObject Map.empty None)\<rparr>
         in case View_getInstance View_constructor rt2 of
              (Inl e, rt3) \<Rightarrow> (Inl e, rt3)
            | (Inr v, rt3) \<Rightarrow>
                (Inr this,
                 rt3\<lparr>heap := (heap rt3)(this \<mapsto> ControllerObject Map.empty (Some v))\<rparr>)))"

definition Controller_getInstance :: "nat constructing \<Rightarrow> nat constructing" where
  "Controller_getInstance factory rt =
     (case Controller_instance rt of
        None \<Rightarrow>
          (case factory (rt\<lparr>factoryCalls := factoryCalls rt @ [''Controller'']\<rparr>) of
             (Inl e, rt') \<Rightarrow> (Inl e, rt')
           | (Inr r, rt') \<Rightarrow> (Inr r, rt'\<lparr>Controller_instance := Some r\<rparr>))
      | Some r \<Rightarrow> (Inr r, rt))"

text \<open>
  The \<open>Facade\<close> constructor ends with \<open>initializeFacade\<close>: \<open>initializeModel\<close>,
  \<open>initializeController\<close>, \<open>initializeView\<close>, in this order.
\<close>

definition Facade_constructor :: "nat constructing" where
  "Facade_constructor rt =
     (if Facade_instance rt \<noteq> None then (Inl (Error Facade_SINGLETON_MSG), rt)
      else
        (let this = allocated rt;
             rt1 = rt\<lparr>allocated := Suc this, Facade_instance := Some this\<rparr>;
             rt2 = rt1\<lparr>heap := (heap rt1)(this \<mapsto> FacadeObject None None None)\<rparr>
         in case Model_getInstance Model_constructor rt2 of
              (Inl e, rt3) \<Rightarrow> (Inl e, rt3)
            | (Inr m, rt3) \<Rightarrow>
                (let rt4 = rt3\<lparr>heap := (heap rt3)(this \<mapsto> FacadeObject (Some m) None None)\<rparr>
                 in case Controller_getInstance Controller_constructor rt4 of
                      (Inl e, rt5) \<Rightarrow> (Inl e, rt5)
                    | (Inr c, rt5) \<Rightarrow>
                        (let rt6 = rt5\<lparr>heap := (heap rt5)
                                     (this \<mapsto> FacadeObject (Some m) (Some c) None)\<rparr>
                         in case View_getInstance View_constructor rt6 of
                              (Inl e, rt7) \<Rightarrow> (Inl e, rt7)
                            | (Inr v, rt7) \<Rightarrow>
                                (Inr this,
                                 rt7\<lparr>heap := (heap rt7)
                                   (this \<mapsto> FacadeObject (Some m) (Some c) (Some v))\<rparr>)))))"

definition Facade_getInstance :: "nat constructing \<Rightarrow> nat constructing" where
  "Facade_getInstance factory rt =
     (case Facade_instance rt of
        None \<Rightarrow>
          (case factory (rt\<lparr>factoryCalls := factoryCalls rt @ [''Facade'']\<rparr>) of
             (Inl e, rt') \<Rightarrow> (Inl e, rt')
           | (Inr r, rt') \<Rightarrow> (Inr r, rt'\<lparr>Facade_instance := Some r\<rparr>))
      | Some r \<Rightarrow> (Inr r, rt))"

subsection \<open>Vocabulary of the properties\<close>

text \<open>The calls made between a state and a later one.\<close>

definition since :: "'u core \<Rightarrow> 'u core \<Rightarrow> call list" where
  "since s s' = drop (length (calls s)) (calls s')"

text \<open>The observers notified, the mediators queried and the commands run in a record of calls.\<close>

fun notified :: "call list \<Rightarrow> observer list" where
  "notified [] = []"
| "notified (Notify ob n # cs) = ob # notified cs"
| "notified (c # cs) = notified cs"

fun queried :: "call list \<Rightarrow> mediator list" where
  "queried [] = []"
| "queried (ListNotificationInterests m # cs) = m # queried cs"
| "queried (c # cs) = queried cs"

fun executed :: "call list \<Rightarrow> (factory \<times> notification) list" where
  "executed [] = []"
| "executed (Execute f n # cs) = (f, n) # executed cs"
| "executed (c # cs) = executed cs"

text \<open>The observer list of a name, empty when the name has no key.\<close>

definition observersOf :: "'u core \<Rightarrow> string \<Rightarrow> observer list" where
  "observersOf s n = (case observerMap s n of None \<Rightarrow> [] | Some l \<Rightarrow> l)"

definition boundTo :: "object \<Rightarrow> 'u core \<Rightarrow> string \<Rightarrow> observer list" where
  "boundTo c s n = filter (\<lambda>ob. compareNotifyContext ob c) (observersOf s n)"

text \<open>
  What a property may ask of a piece of application code: that it returns normally, and
  that it leaves what the proxy registry has under a name as it found it.
\<close>

definition returns :: "'u application \<Rightarrow> call \<Rightarrow> bool" where
  "returns a c = (\<forall>s. fst (react a c s) = Inr ())"

definition keepsProxy :: "'u application \<Rightarrow> call \<Rightarrow> string \<Rightarrow> bool" where
  "keepsProxy a c n = (\<forall>s. lookupProxy a (snd (react a c s)) n = lookupProxy a s n)"

text \<open>
  A name under which the proxy registry inherits nothing, whatever its prototype is:
  not \<open>__proto__\<close>, no property of \<open>Object.prototype\<close> and no property of a proxy.
\<close>

definition plainProxyName :: "'u application \<Rightarrow> string \<Rightarrow> bool" where
  "plainProxyName a n =
     (n \<noteq> ''__proto__'' \<and> objectPrototype n = None \<and> (\<forall>p. proxyProperty a p n = Undefined))"

text \<open>No key of the observer map holds an empty list.\<close>

definition noEmptyList :: "'u core \<Rightarrow> bool" where
  "noEmptyList s = (\<forall>n. observerMap s n \<noteq> Some [])"

text \<open>
  Application code is \<open>tidy\<close> when it keeps that property. Code that changes the
  observer map only through the public operations is tidy, since each of them keeps it.
\<close>

definition tidy :: "'u application \<Rightarrow> bool" where
  "tidy a =
     ((\<forall>c s. noEmptyList s \<longrightarrow> noEmptyList (snd (react a c s))) \<and>
      (\<forall>m s. noEmptyList s \<longrightarrow> noEmptyList (snd (listNotificationInterests a m s))))"

text \<open>
  The states reached from a fresh core by the public operations of \<open>View\<close>,
  \<open>Controller\<close> and \<open>Model\<close>, in any order and with any arguments, whether an
  operation returns or throws, and by the application changing its own state.
\<close>

inductive reachable :: "'u application \<Rightarrow> 'u core \<Rightarrow> bool" for a :: "'u application" where
  r_initial: "reachable a (initial u)"
| r_app: "reachable a s \<Longrightarrow> reachable a (s\<lparr>app := u\<rparr>)"
| r_registerObserver: "reachable a s \<Longrightarrow> reachable a (snd (registerObserver n ob s))"
| r_removeObserver: "reachable a s \<Longrightarrow> reachable a (snd (removeObserver n c s))"
| r_notifyObservers: "reachable a s \<Longrightarrow> reachable a (snd (notifyObservers a nt s))"
| r_registerMediator: "reachable a s \<Longrightarrow> reachable a (snd (registerMediator a m s))"
| r_removeMediator: "reachable a s \<Longrightarrow> reachable a (snd (removeMediator a n s))"
| r_registerCommand: "reachable a s \<Longrightarrow> reachable a (snd (registerCommand a n f s))"
| r_executeCommand: "reachable a s \<Longrightarrow> reachable a (snd (executeCommand a nt s))"
| r_removeCommand: "reachable a s \<Longrightarrow> reachable a (snd (removeCommand a n s))"
| r_registerProxy: "reachable a s \<Longrightarrow> reachable a (snd (registerProxy a p s))"
| r_removeProxy: "reachable a s \<Longrightarrow> reachable a (snd (removeProxy a n s))"

text \<open>The observer that \<open>registerCommand\<close> installs.\<close>

definition commandObserver :: observer where
  "commandObserver = Observer ExecuteCommand TheController"

text \<open>\<open>registerCommand(n, f\<^sub>1)\<close>, ..., \<open>registerCommand(n, f\<^sub>k)\<close> in succession.\<close>

fun registerCommands :: "'u application \<Rightarrow> string \<Rightarrow> factory list \<Rightarrow> 'u core \<Rightarrow> (unit, 'u) outcome" where
  "registerCommands a n [] s = (Inr (), s)"
| "registerCommands a n (f # fs) s =
     (case registerCommand a n f s of
        (Inl e, s') \<Rightarrow> (Inl e, s')
      | (Inr u, s') \<Rightarrow> registerCommands a n fs s')"

text \<open>
  A name under which the command registry inherits nothing, whatever its prototype is:
  not \<open>__proto__\<close>, no property of \<open>Object.prototype\<close> and no property of a factory.
\<close>

definition plainCommandName :: "'u application \<Rightarrow> string \<Rightarrow> bool" where
  "plainCommandName a n =
     (n \<noteq> ''__proto__'' \<and> objectPrototype n = None \<and> (\<forall>f. factoryProperty a f n = Undefined))"

text \<open>
  The controller's bookkeeping for a name: it has an observer in the name's list exactly
  when it has a command for the name, and then it has one.
\<close>

definition coherentAt :: "'u core \<Rightarrow> string \<Rightarrow> bool" where
  "coherentAt s n =
     (boundTo TheController s n = (if commandMap s n = None then [] else [commandObserver]))"

text \<open>
  An observer is considerate towards a notification when its handler returns and leaves
  what the command registry has under the notification's name as it found it.
\<close>

definition considerate :: "'u application \<Rightarrow> notification \<Rightarrow> observer \<Rightarrow> bool" where
  "considerate a nt ob =
     (\<forall>t. fst (notifyObserver a ob nt t) = Inr () \<and>
          lookupCommand a (snd (notifyObserver a ob nt t)) (name nt) = lookupCommand a t (name nt))"

text \<open>A list without its first observer bound to a context: what the scan computes.\<close>

fun removeFirst :: "object \<Rightarrow> observer list \<Rightarrow> observer list" where
  "removeFirst c [] = []"
| "removeFirst c (ob # obs) = (if ctx ob = c then obs else ob # removeFirst c obs)"

text \<open>The observer that \<open>registerMediator\<close> builds for a mediator.\<close>

definition mediatorObserver :: "mediator \<Rightarrow> observer" where
  "mediatorObserver m = Observer (HandleNotification m) (TheMediator m)"



text \<open>A piece of application code that leaves the observer map and the mediator map alone.\<close>

definition keepsView :: "'u application \<Rightarrow> call \<Rightarrow> bool" where
  "keepsView a c =
     (\<forall>s. observerMap (snd (react a c s)) = observerMap s \<and>
          mediatorMap (snd (react a c s)) = mediatorMap s)"

subsection \<open>Sample applications and states\<close>

text \<open>
  An application whose objects do nothing, whose mediators have no interests, and whose
  objects have no properties but those of \<open>Object.prototype\<close>.
\<close>

definition quiet :: "unit application" where
  "quiet = \<lparr>listNotificationInterests = (\<lambda>m s. (Inr [], s)), react = (\<lambda>c s. (Inr (), s)),
     proxyProperty = (\<lambda>p. inherited), factoryProperty = (\<lambda>f. inherited)\<rparr>"

definition proxyA :: proxy where
  "proxyA = \<lparr>proxyName = ''data'', proxyId = 1\<rparr>"


definition proxyC :: proxy where
  "proxyC = \<lparr>proxyName = ''constructor'', proxyId = 4\<rparr>"

definition mediatorA :: mediator where
  "mediatorA = \<lparr>mediatorName = ''panel'', mediatorId = 1\<rparr>"

definition mediatorB :: mediator where
  "mediatorB = \<lparr>mediatorName = ''panel'', mediatorId = 2\<rparr>"

text \<open>The statics after \<open>Facade.getInstance(() => new Facade())\<close> in a fresh process.\<close>

definition running :: runtime where
  "running = snd (Facade_getInstance Facade_constructor start)"

definition observerA :: observer where
  "observerA = Observer (OtherHandler 1) (OtherObject 1)"

definition observerB :: observer where
  "observerB = Observer (OtherHandler 2) (OtherObject 2)"

definition observerC :: observer where
  "observerC = Observer (OtherHandler 3) (OtherObject 3)"

text \<open>
  An application in which the handler of \<open>observerA\<close>, while it is being notified,
  removes the observer bound to \<open>OtherObject 2\<close> (that is \<open>observerB\<close>) from the list of
  the notification's own name and registers \<open>observerC\<close> for that same name.
\<close>

definition meddler :: "unit application" where
  "meddler = \<lparr>listNotificationInterests = (\<lambda>m s. (Inr [], s)),
     react = (\<lambda>c s. case c of
        Notify ob n \<Rightarrow>
          (if ob = observerA
           then (Inr (), snd (registerObserver (name n) observerC
                           (snd (removeObserver (name n) (OtherObject 2) s))))
           else (Inr (), s))
      | _ \<Rightarrow> (Inr (), s)),
     proxyProperty = (\<lambda>p. inherited), factoryProperty = (\<lambda>f. inherited)\<rparr>"

definition ping :: notification where
  "ping = \<lparr>name = ''note'', body = 0, type = None\<rparr>"

definition summons :: notification where
  "summons = \<lparr>name = ''constructor'', body = 0, type = None\<rparr>"

definition twoObservers :: "unit core" where
  "twoObservers =
     snd (registerObserver ''note'' observerB
       (snd (registerObserver ''note'' observerA (initial ()))))"

text \<open>
  After the broadcast of \<open>ping\<close> to \<open>twoObservers\<close> under \<open>meddler\<close>, the two observers
  left for the name are removed one after the other.
\<close>

definition emptied :: "unit core" where
  "emptied =
     snd (removeObserver ''note'' (OtherObject 1)
       (snd (removeObserver ''note'' (OtherObject 3)
         (snd (notifyObservers meddler ping twoObservers)))))"

text \<open>
  A name with one observer of the application's, for which a command was registered and
  removed again (the situation of the repository's test
  \<open>testReregisterAndExecuteCommand\<close>).
\<close>

definition reregistering :: "unit core" where
  "reregistering =
     snd (removeCommand quiet ''note''
       (snd (registerCommand quiet ''note'' 7
         (snd (registerObserver ''note'' observerA (initial ()))))))"




text \<open>
  An application whose mediators declare \<open>note\<close> and \<open>other\<close> as long as no proxy named
  \<open>settings\<close> is registered, and only \<open>other\<close> once there is one.
\<close>

definition fickle :: "unit application" where
  "fickle = \<lparr>listNotificationInterests =
       (\<lambda>m s. (Inr (if proxyMap s ''settings'' \<noteq> None then [''other'']
                    else [''note'', ''other'']), s)),
     react = (\<lambda>c s. (Inr (), s)),
     proxyProperty = (\<lambda>p. inherited), factoryProperty = (\<lambda>f. inherited)\<rparr>"

definition settings :: proxy where
  "settings = \<lparr>proxyName = ''settings'', proxyId = 3\<rparr>"

text \<open>A mediator is registered, then the proxy \<open>settings\<close>.\<close>

definition configured :: "unit core" where
  "configured =
     snd (registerProxy fickle settings (snd (registerMediator fickle mediatorA (initial ()))))"

text \<open>An application in which the handler of \<open>observerA\<close> throws.\<close>

definition failing :: "unit application" where
  "failing = \<lparr>listNotificationInterests = (\<lambda>m s. (Inr [], s)),
     react = (\<lambda>c s. case c of
        Notify ob n \<Rightarrow>
          (if ob = observerA then (Inl (Error ''handler failed''), s) else (Inr (), s))
      | _ \<Rightarrow> (Inr (), s)),
     proxyProperty = (\<lambda>p. inherited), factoryProperty = (\<lambda>f. inherited)\<rparr>"



section \<open>Properties\<close>

subsection \<open>Lookups and calls into application code\<close>

lemma callout_calls: "calls (snd (callout a c s)) = calls s @ [c]"
  by (simp add: callout_def split: prod.splits)

lemma callout_fst: "fst (callout a c s) = fst (react a c s)"
  by (simp add: callout_def split: prod.splits)

lemma callout_snd: "snd (callout a c s) = (snd (react a c s))\<lparr>calls := calls s @ [c]\<rparr>"
  by (simp add: callout_def split: prod.splits)

lemma interestsOf_calls: "calls (snd (interestsOf a m s)) = calls s @ [ListNotificationInterests m]"
  by (simp add: interestsOf_def split: prod.splits)

lemma interestsOf_fst: "fst (interestsOf a m s) = fst (listNotificationInterests a m s)"
  by (simp add: interestsOf_def split: prod.splits)

lemma interestsOf_snd:
  "snd (interestsOf a m s)
     = (snd (listNotificationInterests a m s))\<lparr>calls := calls s @ [ListNotificationInterests m]\<rparr>"
  by (simp add: interestsOf_def split: prod.splits)

lemma lookup_own: "m n = Some v \<Longrightarrow> lookup m n = Value v"
  by (simp add: lookup_def)

lemma lookup_absent: "m n = None \<Longrightarrow> lookup m n = inherited n"
  by (simp add: lookup_def)

lemma lookup_Value: "lookup m n = Value v \<longleftrightarrow> m n = Some v"
  by (simp add: lookup_def inherited_def split: option.splits)

lemma lookup_Undefined: "lookup m n = Undefined \<longleftrightarrow> m n = None \<and> objectPrototype n = None"
  by (simp add: lookup_def inherited_def split: option.splits)

lemma lookup_Other: "lookup m n = Other x \<longleftrightarrow> m n = None \<and> objectPrototype n = Some x"
  by (simp add: lookup_def inherited_def split: option.splits)

text \<open>The names that \<open>Object.prototype\<close> has.\<close>

lemma objectPrototype_names:
  "objectPrototype n = None \<longleftrightarrow>
     n \<notin> {''constructor'', ''hasOwnProperty'', ''isPrototypeOf'', ''propertyIsEnumerable'',
          ''toLocaleString'', ''toString'', ''valueOf'', ''__defineGetter__'',
          ''__defineSetter__'', ''__lookupGetter__'', ''__lookupSetter__'', ''__proto__''}"
  by (simp add: objectPrototype_def)

lemma objectPrototype_table:
  "objectPrototype ''constructor'' = Some (Function 1)"
  "objectPrototype ''hasOwnProperty'' = Some (Function 1)"
  "objectPrototype ''isPrototypeOf'' = Some (Function 1)"
  "objectPrototype ''propertyIsEnumerable'' = Some (Function 1)"
  "objectPrototype ''toLocaleString'' = Some (Function 0)"
  "objectPrototype ''toString'' = Some (Function 0)"
  "objectPrototype ''valueOf'' = Some (Function 0)"
  "objectPrototype ''__defineGetter__'' = Some (Function 2)"
  "objectPrototype ''__defineSetter__'' = Some (Function 2)"
  "objectPrototype ''__lookupGetter__'' = Some (Function 1)"
  "objectPrototype ''__lookupSetter__'' = Some (Function 1)"
  "objectPrototype ''__proto__'' = Some Object"
  by (simp_all add: objectPrototype_def)

lemma objectPrototype_returning:
  assumes "n \<in> {''toLocaleString'', ''toString'', ''valueOf'', ''__proto__''}"
  shows "objectPrototype n = Some (Function 0) \<or> objectPrototype n = Some Object"
  using assms by (elim insertE emptyE) (simp_all only: objectPrototype_table, simp_all)

lemma objectPrototype_positive:
  assumes "n \<in> {''constructor'', ''hasOwnProperty'', ''isPrototypeOf'',
        ''propertyIsEnumerable'', ''__defineGetter__'', ''__defineSetter__'',
        ''__lookupGetter__'', ''__lookupSetter__''}"
  shows "\<exists>k. objectPrototype n = Some (Function k) \<and> 0 < k"
  using assms by (elim insertE emptyE) (simp_all only: objectPrototype_table, simp_all)

text \<open>The names used in the sample states are not among them.\<close>

lemma plain_names:
  "objectPrototype ''note'' = None" "objectPrototype ''other'' = None"
  "objectPrototype ''panel'' = None" "objectPrototype ''data'' = None"
  "objectPrototype ''settings'' = None" "objectPrototype ''absent'' = None"
  by (simp_all add: objectPrototype_def)

lemma inherited_plain:
  "inherited ''note'' = Undefined" "inherited ''other'' = Undefined"
  "inherited ''panel'' = Undefined" "inherited ''data'' = Undefined"
  "inherited ''settings'' = Undefined" "inherited ''absent'' = Undefined"
  by (simp_all add: inherited_def plain_names)

lemma inherited_table:
  "inherited ''constructor'' = Other (Function 1)"
  "inherited ''toString'' = Other (Function 0)"
  "inherited ''toLocaleString'' = Other (Function 0)"
  "inherited ''valueOf'' = Other (Function 0)"
  "inherited ''__proto__'' = Other Object"
  by (simp_all add: inherited_def objectPrototype_table)

lemma lookupProxy_calls: "lookupProxy a (s\<lparr>calls := cs\<rparr>) n = lookupProxy a s n"
  by (simp add: lookupProxy_def split: option.splits)

lemma lookupProxy_assignProxy: "lookupProxy a (assignProxy n p s) n = Value p"
  by (auto simp: lookupProxy_def assignProxy_def split: option.splits)

lemma quiet_react: "react quiet c s = (Inr (), s)"
  by (simp add: quiet_def)

lemma quiet_interests: "listNotificationInterests quiet m s = (Inr [], s)"
  by (simp add: quiet_def)

lemma returns_quiet: "returns quiet c"
  by (simp add: returns_def quiet_react)

lemma keepsProxy_quiet: "keepsProxy quiet c n"
  by (simp add: keepsProxy_def quiet_react)

subsection \<open>Registering a mediator under a name that is taken\<close>

lemma registerMediator_present:
  "mediatorMap s (mediatorName m) \<noteq> None \<Longrightarrow> registerMediator a m s = (Inr (), s)"
  by (auto simp: registerMediator_def lookup_def)

text \<open>
  C6. When the name of mediator \<open>m\<close> is already a key of the mediator map, holding
  \<open>m0\<close>, \<open>registerMediator m\<close> returns with the state unchanged: \<open>m0\<close> is still the
  instance retrieved under that name, the observer map is the same, and the operation
  made no call at all, so neither \<open>m.listNotificationInterests()\<close> nor
  \<open>m.onRegister()\<close> ran.
\<close>

theorem registerMediator_taken_name_noop:
  "mediatorMap s (mediatorName m) = Some m0 \<Longrightarrow>
     registerMediator a m s = (Inr (), s) \<and>
     retrieveMediator (mediatorName m) (snd (registerMediator a m s)) = Value m0 \<and>
     observerMap (snd (registerMediator a m s)) = observerMap s \<and>
     since s (snd (registerMediator a m s)) = []"
  by (simp add: registerMediator_present retrieveMediator_def since_def lookup_own orNull_def
      truthy_def)

lemma registered_panel:
  "mediatorMap (snd (registerMediator quiet mediatorA (initial ()))) ''panel'' = Some mediatorA"
  by (simp add: registerMediator_def initial_def mediatorA_def callout_def interestsOf_def
      quiet_react quiet_interests lookup_def inherited_plain)

theorem registerMediator_taken_name_noop_witness:
  "mediatorB \<noteq> mediatorA \<and>
   mediatorMap (snd (registerMediator quiet mediatorA (initial ()))) (mediatorName mediatorB)
     = Some mediatorA \<and>
   retrieveMediator (mediatorName mediatorB)
     (snd (registerMediator quiet mediatorB (snd (registerMediator quiet mediatorA (initial ())))))
     = Value mediatorA \<and>
   since (snd (registerMediator quiet mediatorA (initial ())))
     (snd (registerMediator quiet mediatorB (snd (registerMediator quiet mediatorA (initial ())))))
     = []"
proof -
  have d: "mediatorB \<noteq> mediatorA"
    by (simp add: mediatorA_def mediatorB_def)
  have h: "mediatorMap (snd (registerMediator quiet mediatorA (initial ())))
             (mediatorName mediatorB) = Some mediatorA"
    using registered_panel by (simp add: mediatorB_def)
  from registerMediator_taken_name_noop [OF h] show ?thesis
    using h d by blast
qed

text \<open>
  The test for a taken name is a lookup, so a name that the registry inherits counts as
  taken although no mediator is stored under it: the mediator is not stored, not asked
  for its interests and not told.
\<close>

lemma registerMediator_inherited_name:
  "mediatorMap s (mediatorName m) = None \<Longrightarrow> objectPrototype (mediatorName m) \<noteq> None \<Longrightarrow>
     registerMediator a m s = (Inr (), s)"
  by (auto simp: registerMediator_def lookup_def inherited_def)

subsection \<open>Removing an observer of a name that has no list\<close>

lemma removeObserver_undefined:
  "observerMap s n = None \<Longrightarrow> objectPrototype n = None \<Longrightarrow>
     removeObserver n c s = (Inl TypeError, s)"
  by (simp add: removeObserver_def lookup_def inherited_def)

lemma removeObserver_inherited:
  "observerMap s n = None \<Longrightarrow> objectPrototype n = Some x \<Longrightarrow>
     removeObserver n c s =
       (case x of Function k \<Rightarrow> if 0 < k then (Inl TypeError, s) else (Inr (), s)
                | Object \<Rightarrow> (Inr (), s) | Falsy \<Rightarrow> (Inr (), s))"
  by (simp add: removeObserver_def lookup_def inherited_def lengthOf_def split: other.splits)

text \<open>
  The claim C9 reads: whenever the observer map has no entry for the name,
  \<open>removeObserver\<close> fails instead of returning. On a fresh \<open>View\<close> the observer map has
  no entry for \<open>toString\<close>, for \<open>valueOf\<close> or for \<open>__proto__\<close>, and \<open>removeObserver\<close>
  of each of these names returns, with the state unchanged.
\<close>

theorem removeObserver_inherited_name_returns:
  "observerMap (initial ()) ''toString'' = None \<and>
   removeObserver ''toString'' TheController (initial ()) = (Inr (), initial ()) \<and>
   observerMap (initial ()) ''valueOf'' = None \<and>
   removeObserver ''valueOf'' (OtherObject 1) (initial ()) = (Inr (), initial ()) \<and>
   observerMap (initial ()) ''__proto__'' = None \<and>
   removeObserver ''__proto__'' (OtherObject 1) (initial ()) = (Inr (), initial ())"
  by (simp add: removeObserver_def lookup_def inherited_table lengthOf_def initial_def)

text \<open>
  C9, amended. Let the observer map have no entry for the notification name. When the
  name is not the name of a property of \<open>Object.prototype\<close>, \<open>removeObserver\<close> does not
  return: it throws a \<open>TypeError\<close> (from reading \<open>length\<close> of \<open>undefined\<close>) and leaves
  the state as it was. When the name is \<open>constructor\<close>, \<open>hasOwnProperty\<close>,
  \<open>isPrototypeOf\<close>, \<open>propertyIsEnumerable\<close>, \<open>__defineGetter__\<close>,
  \<open>__defineSetter__\<close>, \<open>__lookupGetter__\<close> or \<open>__lookupSetter__\<close> it throws a
  \<open>TypeError\<close> as well, state unchanged. When the name is \<open>toString\<close>,
  \<open>toLocaleString\<close>, \<open>valueOf\<close> or \<open>__proto__\<close> it returns and leaves the state as it
  was. When the observer map has an entry for the name, \<open>removeObserver\<close> returns.
\<close>

theorem removeObserver_absent_key:
  "(observerMap s notificationName = None \<and>
    notificationName \<notin> {''constructor'', ''hasOwnProperty'', ''isPrototypeOf'',
       ''propertyIsEnumerable'', ''toLocaleString'', ''toString'', ''valueOf'',
       ''__defineGetter__'', ''__defineSetter__'', ''__lookupGetter__'',
       ''__lookupSetter__'', ''__proto__''} \<longrightarrow>
      removeObserver notificationName notifyContext s = (Inl TypeError, s)) \<and>
   (observerMap s notificationName = None \<and>
    notificationName \<in> {''constructor'', ''hasOwnProperty'', ''isPrototypeOf'',
       ''propertyIsEnumerable'', ''__defineGetter__'', ''__defineSetter__'',
       ''__lookupGetter__'', ''__lookupSetter__''} \<longrightarrow>
      removeObserver notificationName notifyContext s = (Inl TypeError, s)) \<and>
   (observerMap s notificationName = None \<and>
    notificationName \<in> {''toLocaleString'', ''toString'', ''valueOf'', ''__proto__''} \<longrightarrow>
      removeObserver notificationName notifyContext s = (Inr (), s)) \<and>
   (observerMap s notificationName \<noteq> None \<longrightarrow>
      fst (removeObserver notificationName notifyContext s) = Inr ())"
proof (intro conjI impI; (elim conjE)?)
  assume absent: "observerMap s notificationName = None"
  assume "notificationName \<notin> {''constructor'', ''hasOwnProperty'', ''isPrototypeOf'',
          ''propertyIsEnumerable'', ''toLocaleString'', ''toString'', ''valueOf'',
          ''__defineGetter__'', ''__defineSetter__'', ''__lookupGetter__'',
          ''__lookupSetter__'', ''__proto__''}"
  then have "objectPrototype notificationName = None"
    by (rule objectPrototype_names [THEN iffD2])
  then show "removeObserver notificationName notifyContext s = (Inl TypeError, s)"
    by (rule removeObserver_undefined [OF absent])
next
  assume absent: "observerMap s notificationName = None"
  assume "notificationName \<in> {''constructor'', ''hasOwnProperty'', ''isPrototypeOf'',
          ''propertyIsEnumerable'', ''__defineGetter__'', ''__defineSetter__'',
          ''__lookupGetter__'', ''__lookupSetter__''}"
  then have "\<exists>k. objectPrototype notificationName = Some (Function k) \<and> 0 < k"
    by (rule objectPrototype_positive)
  then obtain k where "objectPrototype notificationName = Some (Function k)" "0 < k"
    by blast
  then show "removeObserver notificationName notifyContext s = (Inl TypeError, s)"
    using removeObserver_inherited [OF absent] by simp
next
  assume absent: "observerMap s notificationName = None"
  assume "notificationName \<in> {''toLocaleString'', ''toString'', ''valueOf'', ''__proto__''}"
  then have "objectPrototype notificationName = Some (Function 0) \<or>
             objectPrototype notificationName = Some Object"
    by (rule objectPrototype_returning)
  then show "removeObserver notificationName notifyContext s = (Inr (), s)"
    using removeObserver_inherited [OF absent] by auto
next
  assume "observerMap s notificationName \<noteq> None"
  then show "fst (removeObserver notificationName notifyContext s) = Inr ()"
    by (auto simp: removeObserver_def lookup_def Let_def)
qed

theorem removeObserver_absent_key_witness:
  "observerMap (initial ()) ''note'' = None \<and>
   removeObserver ''note'' TheController (initial ()) = (Inl TypeError, initial ()) \<and>
   removeObserver ''constructor'' TheController (initial ()) = (Inl TypeError, initial ()) \<and>
   removeObserver ''toLocaleString'' TheController (initial ()) = (Inr (), initial ()) \<and>
   observerMap twoObservers ''note'' \<noteq> None \<and>
   fst (removeObserver ''note'' TheController twoObservers) = Inr ()"
proof -
  have e: "observerMap (initial ()) ''note'' = None"
      "observerMap (initial ()) ''constructor'' = None"
      "observerMap (initial ()) ''toLocaleString'' = None"
    by (simp_all add: initial_def)
  have t: "observerMap twoObservers ''note'' \<noteq> None"
    by (simp add: twoObservers_def registerObserver_def initial_def lookup_def inherited_plain)
  show ?thesis
    using removeObserver_absent_key [of "initial ()" "''note''" TheController]
      removeObserver_absent_key [of "initial ()" "''constructor''" TheController]
      removeObserver_absent_key [of "initial ()" "''toLocaleString''" TheController]
      removeObserver_absent_key [of twoObservers "''note''" TheController] e t
    by simp
qed

subsection \<open>The proxy registry\<close>



lemma registerProxy_lookup:
  "keepsProxy a (ProxyOnRegister p) (proxyName p) \<Longrightarrow>
     lookupProxy a (snd (registerProxy a p s)) (proxyName p) = Value p"
  by (simp add: registerProxy_def callout_snd lookupProxy_calls keepsProxy_def
      lookupProxy_assignProxy)

lemma retrieveProxy_Value: "lookupProxy a s n = Value p \<Longrightarrow> retrieveProxy a n s = Value p"
  by (simp add: retrieveProxy_def orNull_def truthy_def)

lemma retrieveProxy_Undefined: "lookupProxy a s n = Undefined \<Longrightarrow> retrieveProxy a n s = Undefined"
  by (simp add: retrieveProxy_def orNull_def truthy_def)

lemma removeProxy_undefined: "lookupProxy a s n = Undefined \<Longrightarrow> removeProxy a n s = (Inr None, s)"
  by (simp add: removeProxy_def)

lemma lookupProxy_plain:
  "plainProxyName a n \<Longrightarrow> proxyMap s n = None \<Longrightarrow> lookupProxy a s n = Undefined"
  by (simp add: plainProxyName_def lookupProxy_def inherited_def split: option.splits)

lemma removeProxy_present:
  assumes "lookupProxy a s n = Value p" and "returns a (ProxyOnRemove p)"
    and "keepsProxy a (ProxyOnRemove p) n"
  shows "fst (removeProxy a n s) = Inr (Some p)"
    and "lookupProxy a (snd (removeProxy a n s)) n
           = lookupProxy a (s\<lparr>proxyMap := (proxyMap s)(n := None)\<rparr>) n"
    and "calls (snd (removeProxy a n s)) = calls s @ [ProxyOnRemove p]"
proof -
  let ?s1 = "s\<lparr>proxyMap := (proxyMap s)(n := None)\<rparr>"
  obtain r s' where c: "callout a (ProxyOnRemove p) ?s1 = (r, s')"
    by (cases "callout a (ProxyOnRemove p) ?s1")
  have r: "r = Inr ()"
    using c assms(2) callout_fst [of a "ProxyOnRemove p" ?s1] by (simp add: returns_def)
  have "s' = (snd (react a (ProxyOnRemove p) ?s1))\<lparr>calls := calls ?s1 @ [ProxyOnRemove p]\<rparr>"
    using c callout_snd [of a "ProxyOnRemove p" ?s1] by simp
  then have m: "lookupProxy a s' n = lookupProxy a ?s1 n"
    using assms(3) by (simp add: keepsProxy_def lookupProxy_calls)
  have l: "calls s' = calls s @ [ProxyOnRemove p]"
    using c callout_calls [of a "ProxyOnRemove p" ?s1] by simp
  show "fst (removeProxy a n s) = Inr (Some p)"
    using assms(1) c r by (simp add: removeProxy_def)
  show "lookupProxy a (snd (removeProxy a n s)) n = lookupProxy a ?s1 n"
    using assms(1) c r m by (simp add: removeProxy_def)
  show "calls (snd (removeProxy a n s)) = calls s @ [ProxyOnRemove p]"
    using assms(1) c r l by (simp add: removeProxy_def)
qed

text \<open>
  Registration, retrieval and removal under a name under which the registry inherits
  nothing, for a proxy \<open>p\<close> whose \<open>onRegister\<close> and \<open>onRemove\<close> leave what the registry
  has under that name alone, and whose \<open>onRemove\<close> returns: after \<open>registerProxy p\<close>,
  \<open>retrieveProxy\<close> of its name returns \<open>p\<close>; \<open>removeProxy\<close> of its name then returns
  \<open>p\<close>, having called \<open>p.onRemove()\<close> and nothing else, and \<open>retrieveProxy\<close> of the
  name returns null afterwards. \<open>removeProxy\<close> of a name whose lookup is \<open>undefined\<close>
  returns null and changes nothing.
\<close>

lemma proxy_register_retrieve_remove:
  assumes "plainProxyName a (proxyName p)"
    and "keepsProxy a (ProxyOnRegister p) (proxyName p)"
    and "returns a (ProxyOnRemove p)"
    and "keepsProxy a (ProxyOnRemove p) (proxyName p)"
  shows "retrieveProxy a (proxyName p) (snd (registerProxy a p s)) = Value p \<and>
     fst (removeProxy a (proxyName p) (snd (registerProxy a p s))) = Inr (Some p) \<and>
     since (snd (registerProxy a p s))
       (snd (removeProxy a (proxyName p) (snd (registerProxy a p s)))) = [ProxyOnRemove p] \<and>
     retrieveProxy a (proxyName p)
       (snd (removeProxy a (proxyName p) (snd (registerProxy a p s)))) = Undefined \<and>
     (\<forall>n t. lookupProxy a t n = Undefined \<longrightarrow> removeProxy a n t = (Inr None, t))"
proof -
  let ?s1 = "snd (registerProxy a p s)"
  have m1: "lookupProxy a ?s1 (proxyName p) = Value p"
    using assms(2) by (rule registerProxy_lookup)
  have 1: "retrieveProxy a (proxyName p) ?s1 = Value p"
    using m1 by (rule retrieveProxy_Value)
  note rm = removeProxy_present [OF m1 assms(3) assms(4)]
  have 3: "since ?s1 (snd (removeProxy a (proxyName p) ?s1)) = [ProxyOnRemove p]"
    by (simp add: since_def rm(3))
  have "lookupProxy a (?s1\<lparr>proxyMap := (proxyMap ?s1)(proxyName p := None)\<rparr>) (proxyName p)
          = Undefined"
    using assms(1) by (simp add: lookupProxy_plain)
  then have "lookupProxy a (snd (removeProxy a (proxyName p) ?s1)) (proxyName p) = Undefined"
    using rm(2) by simp
  then have 4: "retrieveProxy a (proxyName p) (snd (removeProxy a (proxyName p) ?s1)) = Undefined"
    by (rule retrieveProxy_Undefined)
  show ?thesis
    using 1 rm(1) 3 4 removeProxy_undefined by blast
qed

lemma plainProxyName_quiet: "plainProxyName quiet ''data''"
  by (simp add: plainProxyName_def quiet_def inherited_plain plain_names)

lemma proxy_register_retrieve_remove_data:
  "retrieveProxy quiet ''data'' (snd (registerProxy quiet proxyA (initial ()))) = Value proxyA \<and>
   fst (removeProxy quiet ''data'' (snd (registerProxy quiet proxyA (initial ()))))
     = Inr (Some proxyA) \<and>
   retrieveProxy quiet ''data''
     (snd (removeProxy quiet ''data'' (snd (registerProxy quiet proxyA (initial ())))))
     = Undefined"
proof -
  have n: "proxyName proxyA = ''data''"
    by (simp add: proxyA_def)
  show ?thesis
    using proxy_register_retrieve_remove [of quiet proxyA "initial ()"]
      plainProxyName_quiet keepsProxy_quiet returns_quiet
    by (simp add: n)
qed

text \<open>
  C7. The claim does not hold of the code for a name that the registry inherits from
  \<open>Object.prototype\<close>, such as \<open>constructor\<close>. On a fresh \<open>Model\<close>, where no proxy
  is registered, \<open>retrieveProxy\<close> of \<open>constructor\<close> does not return null but the
  inherited function, and \<open>removeProxy\<close> of \<open>constructor\<close> does not return null: it
  throws a \<open>TypeError\<close>, the inherited function having no \<open>onRemove\<close>. After a proxy
  named \<open>constructor\<close> is registered and removed again, \<open>retrieveProxy\<close> of its name
  returns the inherited function instead of null.
\<close>

theorem removeProxy_inherited_name_throws:
  "proxyMap (initial ()) ''constructor'' = None \<and>
   retrieveProxy quiet ''constructor'' (initial ()) = Other (Function 1) \<and>
   removeProxy quiet ''constructor'' (initial ()) = (Inl TypeError, initial ()) \<and>
   retrieveProxy quiet (proxyName proxyC) (snd (registerProxy quiet proxyC (initial ())))
     = Value proxyC \<and>
   fst (removeProxy quiet (proxyName proxyC) (snd (registerProxy quiet proxyC (initial ()))))
     = Inr (Some proxyC) \<and>
   retrieveProxy quiet (proxyName proxyC)
     (snd (removeProxy quiet (proxyName proxyC) (snd (registerProxy quiet proxyC (initial ())))))
     = Other (Function 1)"
  by (simp add: retrieveProxy_def removeProxy_def registerProxy_def lookupProxy_def
      assignProxy_def callout_def quiet_react initial_def proxyC_def orNull_def truthy_def
      inherited_table)



subsection \<open>Singletons\<close>

text \<open>
  C8. For each of \<open>Model\<close>, \<open>View\<close>, \<open>Controller\<close> and \<open>Facade\<close>: when the static
  \<open>instance\<close> of the class holds an object \<open>r\<close>, the constructor throws \<open>Error\<close> with
  the class's \<open>SINGLETON_MSG\<close> and changes nothing (the instance is neither replaced nor
  returned), and \<open>getInstance\<close> returns \<open>r\<close> and changes nothing, whatever factory it is
  given: the factory is not invoked.
\<close>

theorem singleton_discipline:
  "(Model_instance rt = Some r \<longrightarrow>
      Model_constructor rt = (Inl (Error Model_SINGLETON_MSG), rt) \<and>
      Model_getInstance factory rt = (Inr r, rt)) \<and>
   (View_instance rt = Some r \<longrightarrow>
      View_constructor rt = (Inl (Error View_SINGLETON_MSG), rt) \<and>
      View_getInstance factory rt = (Inr r, rt)) \<and>
   (Controller_instance rt = Some r \<longrightarrow>
      Controller_constructor rt = (Inl (Error Controller_SINGLETON_MSG), rt) \<and>
      Controller_getInstance factory rt = (Inr r, rt)) \<and>
   (Facade_instance rt = Some r \<longrightarrow>
      Facade_constructor rt = (Inl (Error Facade_SINGLETON_MSG), rt) \<and>
      Facade_getInstance factory rt = (Inr r, rt))"
  by (simp add: Model_constructor_def Model_getInstance_def View_constructor_def
      View_getInstance_def Controller_constructor_def Controller_getInstance_def
      Facade_constructor_def Facade_getInstance_def)

lemma running_instances:
  "Model_instance running = Some 1" "View_instance running = Some 3"
  "Controller_instance running = Some 2" "Facade_instance running = Some 0"
  "factoryCalls running = [''Facade'', ''Model'', ''Controller'', ''View'']"
  by (simp_all add: running_def start_def Facade_getInstance_def Facade_constructor_def
      Model_getInstance_def Model_constructor_def Controller_getInstance_def
      Controller_constructor_def View_getInstance_def View_constructor_def Let_def)

theorem singleton_discipline_witness:
  "Model_instance running = Some 1 \<and>
   Model_constructor running = (Inl (Error Model_SINGLETON_MSG), running) \<and>
   Model_getInstance Model_constructor running = (Inr 1, running) \<and>
   View_instance running = Some 3 \<and>
   View_constructor running = (Inl (Error View_SINGLETON_MSG), running) \<and>
   View_getInstance View_constructor running = (Inr 3, running) \<and>
   Controller_instance running = Some 2 \<and>
   Controller_constructor running = (Inl (Error Controller_SINGLETON_MSG), running) \<and>
   Controller_getInstance Controller_constructor running = (Inr 2, running) \<and>
   Facade_instance running = Some 0 \<and>
   Facade_constructor running = (Inl (Error Facade_SINGLETON_MSG), running) \<and>
   Facade_getInstance Facade_constructor running = (Inr 0, running)"
  using singleton_discipline [of running 1 Model_constructor]
    singleton_discipline [of running 3 View_constructor]
    singleton_discipline [of running 2 Controller_constructor]
    singleton_discipline [of running 0 Facade_constructor]
    running_instances
  by simp

subsection \<open>Broadcast\<close>

declare notifyObservers_loop.simps [simp del]

lemma notified_append: "notified (xs @ ys) = notified xs @ notified ys"
  by (induction xs rule: notified.induct) simp_all

lemma queried_append: "queried (xs @ ys) = queried xs @ queried ys"
  by (induction xs rule: queried.induct) simp_all

lemma executed_append: "executed (xs @ ys) = executed xs @ executed ys"
  by (induction xs rule: executed.induct) simp_all

lemma since_append: "calls s' = calls s @ d \<Longrightarrow> since s s' = d"
  by (simp add: since_def)

lemma executeCommand_calls:
  "\<exists>d. calls (snd (executeCommand a n s)) = calls s @ d \<and> notified d = [] \<and> queried d = []"
  by (simp add: executeCommand_def callout_calls split: found.splits)

text \<open>Notifying one observer records that notification first, and no other notification.\<close>

lemma notifyObserver_calls:
  "\<exists>d. calls (snd (notifyObserver a ob n s)) = calls s @ Notify ob n # d \<and>
       notified d = [] \<and> queried d = []"
proof (cases "notify ob")
  case ExecuteCommand
  show ?thesis
  proof (cases "ctx ob = TheController")
    case True
    obtain d where "calls (snd (executeCommand a n (called (Notify ob n) s)))
          = calls (called (Notify ob n) s) @ d"
      and "notified d = []" and "queried d = []"
      using executeCommand_calls by blast
    then show ?thesis
      using ExecuteCommand True by (simp add: notifyObserver_def called_def)
  next
    case False
    then show ?thesis
      using ExecuteCommand by (simp add: notifyObserver_def called_def)
  qed
next
  case (HandleNotification m)
  then show ?thesis
    by (simp add: notifyObserver_def callout_calls)
next
  case (OtherHandler h)
  then show ?thesis
    by (simp add: notifyObserver_def callout_calls)
qed


text \<open>
  The loop from index \<open>i\<close>, whatever the handlers do: the observers it notifies are
  the first \<open>k\<close> of those from \<open>i\<close> on, for some \<open>k\<close>, and it queries no mediator.
\<close>

lemma notifyObservers_loop_prefix:
  "\<exists>d k. calls (snd (notifyObservers_loop a n observers i s)) = calls s @ d \<and>
         notified d = take k (drop i observers) \<and> queried d = []"
proof (induction a n observers i s rule: notifyObservers_loop.induct)
  case (1 a n observers i s)
  show ?case
  proof (cases "i < length observers")
    case False
    then have "notifyObservers_loop a n observers i s = (Inr (), s)"
      by (simp add: notifyObservers_loop.simps)
    then show ?thesis
      by simp
  next
    case True
    obtain r s' where step: "notifyObserver a (observers ! i) n s = (r, s')"
      by (cases "notifyObserver a (observers ! i) n s")
    obtain d where d: "calls s' = calls s @ Notify (observers ! i) n # d"
        "notified d = []" "queried d = []"
      using notifyObserver_calls [of a "observers ! i" n s] step by auto
    show ?thesis
    proof (cases r)
      case (Inl e)
      then have "notifyObservers_loop a n observers i s = (Inl e, s')"
        using True step by (simp add: notifyObservers_loop.simps [of a n observers i s])
      moreover have "notified (Notify (observers ! i) n # d) = take 1 (drop i observers)"
        using d True by (simp add: hd_drop_conv_nth take_Suc)
      moreover have "queried (Notify (observers ! i) n # d) = []"
        using d by simp
      ultimately show ?thesis
        using d by (metis snd_conv)
    next
      case (Inr u)
      then have unf: "notifyObservers_loop a n observers i s
                        = notifyObservers_loop a n observers (i + 1) s'"
        using True step by (simp add: notifyObservers_loop.simps [of a n observers i s])
      have "\<exists>d k. calls (snd (notifyObservers_loop a n observers (i + 1) s')) = calls s' @ d \<and>
              notified d = take k (drop (i + 1) observers) \<and> queried d = []"
        using "1.IH" [OF True] step Inr by simp
      then obtain d' k where
        d': "calls (snd (notifyObservers_loop a n observers (i + 1) s')) = calls s' @ d'"
          "notified d' = take k (drop (i + 1) observers)" "queried d' = []"
        by blast
      have "calls (snd (notifyObservers_loop a n observers i s))
              = calls s @ (Notify (observers ! i) n # d @ d')"
        using unf d d' by simp
      moreover have "notified (Notify (observers ! i) n # d @ d')
                       = take (Suc k) (drop i observers)"
        using d d' True by (simp add: notified_append Cons_nth_drop_Suc [symmetric])
      moreover have "queried (Notify (observers ! i) n # d @ d') = []"
        using d d' by (simp add: queried_append)
      ultimately show ?thesis
        by metis
    qed
  qed
qed

lemma registerObserver_appends:
  "observerMap s n = Some l \<Longrightarrow>
     registerObserver n ob s = (Inr (), s\<lparr>observerMap := (observerMap s)(n \<mapsto> l @ [ob])\<rparr>)"
  by (simp add: registerObserver_def lookup_own)

lemma registerObserver_creates:
  "observerMap s n = None \<Longrightarrow> objectPrototype n = None \<Longrightarrow>
     registerObserver n ob s = (Inr (), s\<lparr>observerMap := (observerMap s)(n \<mapsto> [ob])\<rparr>)"
  by (simp add: registerObserver_def lookup_def inherited_def)

lemma registerObserver_inherited:
  "observerMap s n = None \<Longrightarrow> objectPrototype n \<noteq> None \<Longrightarrow>
     registerObserver n ob s = (Inl TypeError, s)"
  by (auto simp: registerObserver_def lookup_def inherited_def)

lemma notifyObservers_inherited:
  "observerMap s (name n) = None \<Longrightarrow> objectPrototype (name n) \<noteq> None \<Longrightarrow>
     notifyObservers a n s = (Inl TypeError, s)"
  by (auto simp: notifyObservers_def lookup_def inherited_def)






text \<open>
  A handler that throws ends the broadcast: the exception leaves \<open>notifyObservers\<close>, and
  the observers after it in the list are not notified.
\<close>

lemma notifyObservers_handler_throws:
  "notifyObservers failing ping twoObservers
     = (Inl (Error ''handler failed''), twoObservers\<lparr>calls := [Notify observerA ping]\<rparr>)"
  by (simp add: notifyObservers_def twoObservers_def registerObserver_def initial_def ping_def
      notifyObservers_loop.simps notifyObserver_def observerA_def observerB_def
      Observer_def callout_def failing_def lookup_def inherited_plain)

subsection \<open>No key with an empty observer list\<close>

lemma snd_rethrow:
  "snd (case x of (Inl e, s') \<Rightarrow> (Inl e, s') | (Inr u, s') \<Rightarrow> (Inr (f u), s')) = snd x"
  by (cases x; cases "fst x") auto

lemma noEmptyList_initial: "noEmptyList (initial u)"
  by (simp add: noEmptyList_def initial_def)

lemma noEmptyList_fields:
  "observerMap s' = observerMap s \<Longrightarrow> noEmptyList s' = noEmptyList s"
  by (simp add: noEmptyList_def)

lemma noEmptyList_registerObserver:
  "noEmptyList s \<Longrightarrow> noEmptyList (snd (registerObserver n ob s))"
  by (simp add: noEmptyList_def registerObserver_def split: found.splits)

lemma removeObserver_key: "observerMap (snd (removeObserver n c s)) n \<noteq> Some []"
  by (auto simp: removeObserver_def Let_def lookup_Undefined lookup_Other lookup_Value
      split: found.splits option.splits)

lemma removeObserver_other:
  "n' \<noteq> n \<Longrightarrow> observerMap (snd (removeObserver n c s)) n' = observerMap s n'"
  by (simp add: removeObserver_def Let_def split: found.splits option.splits)

lemma noEmptyList_removeObserver: "noEmptyList s \<Longrightarrow> noEmptyList (snd (removeObserver n c s))"
  unfolding noEmptyList_def by (metis removeObserver_key removeObserver_other)

lemma noEmptyList_callout: "tidy a \<Longrightarrow> noEmptyList s \<Longrightarrow> noEmptyList (snd (callout a c s))"
  by (simp add: callout_snd tidy_def noEmptyList_def)

lemma noEmptyList_interestsOf:
  "tidy a \<Longrightarrow> noEmptyList s \<Longrightarrow> noEmptyList (snd (interestsOf a m s))"
  by (simp add: interestsOf_snd tidy_def noEmptyList_def)

lemma noEmptyList_called: "noEmptyList s \<Longrightarrow> noEmptyList (called c s)"
  by (simp add: noEmptyList_def called_def)

lemma noEmptyList_executeCommand:
  "tidy a \<Longrightarrow> noEmptyList s \<Longrightarrow> noEmptyList (snd (executeCommand a n s))"
  by (simp add: executeCommand_def noEmptyList_callout split: found.splits)

lemma noEmptyList_notifyObserver:
  "tidy a \<Longrightarrow> noEmptyList s \<Longrightarrow> noEmptyList (snd (notifyObserver a ob n s))"
  by (simp add: notifyObserver_def noEmptyList_callout noEmptyList_executeCommand
      noEmptyList_called split: handler.splits)

lemma noEmptyList_loop:
  "tidy a \<Longrightarrow> noEmptyList s \<Longrightarrow> noEmptyList (snd (notifyObservers_loop a n observers i s))"
proof (induction a n observers i s rule: notifyObservers_loop.induct)
  case (1 a n observers i s)
  show ?case
  proof (cases "i < length observers")
    case False
    then show ?thesis
      using "1.prems" by (simp add: notifyObservers_loop.simps)
  next
    case True
    obtain r s' where step: "notifyObserver a (observers ! i) n s = (r, s')"
      by (cases "notifyObserver a (observers ! i) n s")
    have inv': "noEmptyList s'"
      using noEmptyList_notifyObserver [OF "1.prems", of "observers ! i" n] step by simp
    show ?thesis
    proof (cases r)
      case (Inl e)
      then show ?thesis
        using True step inv' by (simp add: notifyObservers_loop.simps [of a n observers i s])
    next
      case (Inr u)
      then show ?thesis
        using True step inv' "1.IH" [OF True _ _ "1.prems"(1)]
        by (simp add: notifyObservers_loop.simps [of a n observers i s])
    qed
  qed
qed

lemma noEmptyList_notifyObservers:
  "tidy a \<Longrightarrow> noEmptyList s \<Longrightarrow> noEmptyList (snd (notifyObservers a n s))"
  by (simp add: notifyObservers_def noEmptyList_loop split: found.splits)

lemma noEmptyList_registerMediator_loop:
  "noEmptyList s \<Longrightarrow> noEmptyList (snd (registerMediator_loop is ob s))"
proof (induction "is" arbitrary: s)
  case Nil
  then show ?case
    by simp
next
  case (Cons i "is")
  obtain r s' where step: "registerObserver i ob s = (r, s')"
    by (cases "registerObserver i ob s")
  have "noEmptyList s'"
    using noEmptyList_registerObserver [OF Cons.prems, of i ob] step by simp
  then show ?case
    using step Cons.IH by (cases r) simp_all
qed

lemma noEmptyList_registerMediator:
  assumes "tidy a" and "noEmptyList s"
  shows "noEmptyList (snd (registerMediator a m s))"
proof (cases "lookup (mediatorMap s) (mediatorName m) = Undefined")
  case False
  then show ?thesis
    using assms(2) by (simp add: registerMediator_def)
next
  case True
  let ?s1 = "s\<lparr>mediatorMap := (mediatorMap s)(mediatorName m \<mapsto> m)\<rparr>"
  obtain r s2 where q: "interestsOf a m ?s1 = (r, s2)"
    by (cases "interestsOf a m ?s1")
  have "noEmptyList ?s1"
    using assms(2) by (simp add: noEmptyList_def)
  then have i2: "noEmptyList s2"
    using noEmptyList_interestsOf [OF assms(1), of ?s1 m] q by simp
  show ?thesis
  proof (cases r)
    case (Inl e)
    then show ?thesis
      using True q i2 by (simp add: registerMediator_def)
  next
    case (Inr interests)
    let ?ob = "Observer (HandleNotification m) (TheMediator m)"
    obtain r3 s3 where l: "(if length interests > 0
                    then registerMediator_loop interests ?ob s2 else (Inr (), s2)) = (r3, s3)"
      by (cases "(if length interests > 0
                    then registerMediator_loop interests ?ob s2 else (Inr (), s2))")
    have i3: "noEmptyList s3"
      using noEmptyList_registerMediator_loop [OF i2, of interests ?ob] l i2
      by (auto split: if_splits)
    have i4: "noEmptyList (snd (callout a (OnRegister m) s3))"
      using assms(1) i3 by (rule noEmptyList_callout)
    show ?thesis
      using True q Inr l i3 i4 by (cases r3) (simp_all add: registerMediator_def)
  qed
qed

lemma noEmptyList_removeMediator_loop:
  "noEmptyList s \<Longrightarrow> noEmptyList (snd (removeMediator_loop is m s))"
proof (induction "is" arbitrary: s)
  case Nil
  then show ?case
    by simp
next
  case (Cons i "is")
  obtain r s' where step: "removeObserver i (TheMediator m) s = (r, s')"
    by (cases "removeObserver i (TheMediator m) s")
  have "noEmptyList s'"
    using noEmptyList_removeObserver [OF Cons.prems, of i "TheMediator m"] step by simp
  then show ?case
    using step Cons.IH by (cases r) simp_all
qed

lemma noEmptyList_removeMediator:
  assumes "tidy a" and "noEmptyList s"
  shows "noEmptyList (snd (removeMediator a n s))"
proof (cases "lookup (mediatorMap s) n")
  case Undefined
  then show ?thesis
    using assms(2) by (simp add: removeMediator_def)
next
  case (Other x)
  then show ?thesis
    using assms(2) by (simp add: removeMediator_def)
next
  case (Value m)
  obtain r s1 where q: "interestsOf a m s = (r, s1)"
    by (cases "interestsOf a m s")
  have i1: "noEmptyList s1"
    using noEmptyList_interestsOf [OF assms, of m] q by simp
  show ?thesis
  proof (cases r)
    case (Inl e)
    then show ?thesis
      using Value q i1 by (simp add: removeMediator_def)
  next
    case (Inr interests)
    obtain r1 s2 where loop: "removeMediator_loop interests m s1 = (r1, s2)"
      by (cases "removeMediator_loop interests m s1")
    have i2: "noEmptyList s2"
      using noEmptyList_removeMediator_loop [OF i1, of interests m] loop by simp
    let ?s3 = "s2\<lparr>mediatorMap := (mediatorMap s2)(n := None)\<rparr>"
    have "noEmptyList ?s3"
      using i2 by (simp add: noEmptyList_def)
    then have i4: "noEmptyList (snd (callout a (OnRemove m) ?s3))"
      using assms(1) by (rule noEmptyList_callout [rotated])
    show ?thesis
    proof (cases r1)
      case (Inl e)
      then show ?thesis
        using Value q Inr loop i2 by (simp add: removeMediator_def)
    next
      case (Inr u)
      then show ?thesis
        using Value q \<open>r = Inr interests\<close> loop i4 by (simp add: removeMediator_def snd_rethrow)
    qed
  qed
qed

lemma noEmptyList_assignCommand: "noEmptyList (assignCommand n f s) = noEmptyList s"
  by (simp add: assignCommand_def noEmptyList_def)

lemma noEmptyList_assignProxy: "noEmptyList (assignProxy n p s) = noEmptyList s"
  by (simp add: assignProxy_def noEmptyList_def)

lemma noEmptyList_registerCommand:
  assumes "noEmptyList s"
  shows "noEmptyList (snd (registerCommand a n f s))"
proof -
  obtain r s1 where step: "(if lookupCommand a s n = Undefined
            then registerObserver n (Observer ExecuteCommand TheController) s
            else (Inr (), s)) = (r, s1)"
    by (cases "(if lookupCommand a s n = Undefined
            then registerObserver n (Observer ExecuteCommand TheController) s
            else (Inr (), s))")
  have "noEmptyList s1"
    using noEmptyList_registerObserver [OF assms, of n "Observer ExecuteCommand TheController"]
      step assms
    by (auto split: if_splits)
  then show ?thesis
    using step by (cases r) (simp_all add: registerCommand_def noEmptyList_assignCommand)
qed

lemma noEmptyList_removeCommand:
  assumes "noEmptyList s"
  shows "noEmptyList (snd (removeCommand a n s))"
proof -
  obtain r s' where step: "removeObserver n TheController s = (r, s')"
    by (cases "removeObserver n TheController s")
  have "noEmptyList s'"
    using noEmptyList_removeObserver [OF assms, of n TheController] step by simp
  then show ?thesis
    using assms step by (cases r) (simp_all add: removeCommand_def noEmptyList_def)
qed

lemma noEmptyList_registerProxy:
  "tidy a \<Longrightarrow> noEmptyList s \<Longrightarrow> noEmptyList (snd (registerProxy a p s))"
  by (simp add: registerProxy_def noEmptyList_callout noEmptyList_assignProxy)

lemma noEmptyList_removeProxy:
  assumes "tidy a" and "noEmptyList s"
  shows "noEmptyList (snd (removeProxy a n s))"
proof (cases "lookupProxy a s n")
  case Undefined
  then show ?thesis
    using assms(2) by (simp add: removeProxy_def)
next
  case (Other x)
  then show ?thesis
    using assms(2) by (simp add: removeProxy_def noEmptyList_def)
next
  case (Value p)
  let ?s1 = "s\<lparr>proxyMap := (proxyMap s)(n := None)\<rparr>"
  have "noEmptyList ?s1"
    using assms(2) by (simp add: noEmptyList_def)
  then have "noEmptyList (snd (callout a (ProxyOnRemove p) ?s1))"
    using assms(1) by (rule noEmptyList_callout [rotated])
  then show ?thesis
    using Value by (simp add: removeProxy_def snd_rethrow)
qed

lemma reachable_noEmptyList:
  assumes "tidy a"
  shows "reachable a s \<Longrightarrow> noEmptyList s"
proof (induction rule: reachable.induct)
  case (r_initial u)
  show ?case
    by (rule noEmptyList_initial)
next
  case (r_app s u)
  then show ?case
    by (simp add: noEmptyList_def)
qed (simp_all add: assms noEmptyList_registerObserver noEmptyList_removeObserver
      noEmptyList_notifyObservers noEmptyList_registerMediator noEmptyList_removeMediator
      noEmptyList_registerCommand noEmptyList_executeCommand noEmptyList_removeCommand
      noEmptyList_registerProxy noEmptyList_removeProxy)

lemma registerObserver_absent:
  "observerMap s n = None \<Longrightarrow>
     observerMap (snd (registerObserver n ob s)) n
       = (if objectPrototype n = None then Some [ob] else None)"
  by (simp add: registerObserver_creates registerObserver_inherited)

text \<open>
  C5. Run with an application whose code is tidy, every state reached through the
  public operations (\<open>registerObserver\<close>, \<open>removeObserver\<close>, \<open>notifyObservers\<close>,
  \<open>registerMediator\<close>, \<open>removeMediator\<close>, \<open>registerCommand\<close>, \<open>removeCommand\<close> and the
  others) has no key of the observer map holding an empty list. \<open>removeObserver\<close>
  never leaves an empty list under the key it was called for: it deletes the key when
  its list becomes empty. \<open>registerObserver\<close> creates an absent key with a one-element
  list, or, under a name that the map inherits from \<open>Object.prototype\<close>, not at all.
\<close>

theorem no_empty_observer_list:
  assumes "tidy a" and "reachable a s"
  shows "noEmptyList s \<and>
     (\<forall>n c t. observerMap (snd (removeObserver n c (t :: 'u core))) n \<noteq> Some []) \<and>
     (\<forall>n ob t. observerMap (t :: 'u core) n = None \<longrightarrow>
        observerMap (snd (registerObserver n ob t)) n
          = (if objectPrototype n = None then Some [ob] else None))"
  using reachable_noEmptyList [OF assms] removeObserver_key registerObserver_absent by blast

lemma tidy_meddler: "tidy meddler"
proof -
  have "noEmptyList (snd (react meddler c s))" if "noEmptyList s" for c s
  proof (cases c)
    case (Notify ob n)
    show ?thesis
      using that noEmptyList_registerObserver [OF noEmptyList_removeObserver [OF that]]
      by (simp add: Notify meddler_def)
  qed (simp_all add: that meddler_def)
  moreover have "noEmptyList (snd (listNotificationInterests meddler m s))"
    if "noEmptyList s" for m s
    using that by (simp add: meddler_def)
  ultimately show ?thesis
    by (simp add: tidy_def)
qed

lemma reachable_emptied: "reachable meddler emptied"
  unfolding emptied_def twoObservers_def
  by (intro reachable.intros)

lemma emptied_key: "observerMap emptied ''note'' = None"
  by (simp add: emptied_def notifyObservers_def twoObservers_def registerObserver_def initial_def ping_def
      notifyObservers_loop.simps notifyObserver_def observerA_def observerB_def observerC_def
      Observer_def callout_def meddler_def removeObserver_def compareNotifyContext_def
      splice1_def lookup_def inherited_plain)

theorem no_empty_observer_list_witness:
  "tidy meddler \<and> reachable meddler emptied \<and> noEmptyList emptied \<and>
   observerMap emptied ''note'' = None"
  using no_empty_observer_list [OF tidy_meddler reachable_emptied] tidy_meddler
    reachable_emptied emptied_key
  by blast

subsection \<open>Commands\<close>

lemma lookupCommand_calls: "lookupCommand a (s\<lparr>calls := cs\<rparr>) n = lookupCommand a s n"
  by (simp add: lookupCommand_def split: option.splits)

lemma lookupCommand_plain:
  "plainCommandName a n \<Longrightarrow>
     lookupCommand a s n = (case commandMap s n of None \<Rightarrow> Undefined | Some f \<Rightarrow> Value f)"
  by (simp add: plainCommandName_def lookupCommand_def inherited_def split: option.splits)

lemma observersOf_registerObserver:
  "objectPrototype n = None \<Longrightarrow>
     observersOf (snd (registerObserver n ob s)) n'
       = (if n' = n then observersOf s n @ [ob] else observersOf s n')"
  by (cases "observerMap s n")
    (simp_all add: registerObserver_creates registerObserver_appends observersOf_def)

lemma registerObserver_fst:
  "objectPrototype n = None \<Longrightarrow> fst (registerObserver n ob s) = Inr ()"
  by (cases "observerMap s n") (simp_all add: registerObserver_creates registerObserver_appends)

lemma registerObserver_fields:
  "mediatorMap (snd (registerObserver n ob s)) = mediatorMap s"
  "commandMap (snd (registerObserver n ob s)) = commandMap s"
  "commandMap_prototype (snd (registerObserver n ob s)) = commandMap_prototype s"
  "calls (snd (registerObserver n ob s)) = calls s"
  by (simp_all add: registerObserver_def split: found.splits)

text \<open>
  \<open>registerCommand\<close> under a name under which the command registry inherits nothing.
\<close>

lemma registerCommand_plain:
  assumes "plainCommandName a n"
  shows "fst (registerCommand a n f s) = Inr ()"
    and "observersOf (snd (registerCommand a n f s)) n' =
          (if n' = n \<and> commandMap s n = None then observersOf s n @ [commandObserver]
           else observersOf s n')"
    and "commandMap (snd (registerCommand a n f s)) = (commandMap s)(n \<mapsto> f)"
    and "calls (snd (registerCommand a n f s)) = calls s"
proof -
  have p: "n \<noteq> ''__proto__''" "objectPrototype n = None"
    using assms by (simp_all add: plainCommandName_def)
  let ?ob = "Observer ExecuteCommand TheController"
  show "fst (registerCommand a n f s) = Inr ()"
  proof (cases "commandMap s n")
    case None
    obtain r s1 where step: "registerObserver n ?ob s = (r, s1)"
      by (cases "registerObserver n ?ob s")
    have "r = Inr ()"
      using registerObserver_fst [OF p(2), of ?ob s] step by simp
    then show ?thesis
      using None step by (simp add: registerCommand_def lookupCommand_plain [OF assms])
  next
    case (Some g)
    then show ?thesis
      by (simp add: registerCommand_def lookupCommand_plain [OF assms])
  qed
  show "observersOf (snd (registerCommand a n f s)) n' =
          (if n' = n \<and> commandMap s n = None then observersOf s n @ [commandObserver]
           else observersOf s n')"
  proof (cases "commandMap s n")
    case None
    obtain r s1 where step: "registerObserver n ?ob s = (r, s1)"
      by (cases "registerObserver n ?ob s")
    have r: "r = Inr ()"
      using registerObserver_fst [OF p(2), of ?ob s] step by simp
    have "observersOf s1 n' = (if n' = n then observersOf s n @ [?ob] else observersOf s n')"
      using observersOf_registerObserver [OF p(2), of ?ob s n'] step by simp
    then show ?thesis
      using None step r p(1)
      by (simp add: registerCommand_def lookupCommand_plain [OF assms] assignCommand_def
          observersOf_def commandObserver_def)
  next
    case (Some g)
    then show ?thesis
      using p(1)
      by (simp add: registerCommand_def lookupCommand_plain [OF assms] assignCommand_def
          observersOf_def)
  qed
  show "commandMap (snd (registerCommand a n f s)) = (commandMap s)(n \<mapsto> f)"
  proof (cases "commandMap s n")
    case None
    obtain r s1 where step: "registerObserver n ?ob s = (r, s1)"
      by (cases "registerObserver n ?ob s")
    have r: "r = Inr ()"
      using registerObserver_fst [OF p(2), of ?ob s] step by simp
    have "commandMap s1 = commandMap s"
      using registerObserver_fields(2) [of n ?ob s] step by simp
    then show ?thesis
      using None step r p(1)
      by (simp add: registerCommand_def lookupCommand_plain [OF assms] assignCommand_def)
  next
    case (Some g)
    then show ?thesis
      using p(1)
      by (simp add: registerCommand_def lookupCommand_plain [OF assms] assignCommand_def)
  qed
  show "calls (snd (registerCommand a n f s)) = calls s"
  proof (cases "commandMap s n")
    case None
    obtain r s1 where step: "registerObserver n ?ob s = (r, s1)"
      by (cases "registerObserver n ?ob s")
    have r: "r = Inr ()"
      using registerObserver_fst [OF p(2), of ?ob s] step by simp
    have "calls s1 = calls s"
      using registerObserver_fields(4) [of n ?ob s] step by simp
    then show ?thesis
      using None step r p(1)
      by (simp add: registerCommand_def lookupCommand_plain [OF assms] assignCommand_def)
  next
    case (Some g)
    then show ?thesis
      using p(1)
      by (simp add: registerCommand_def lookupCommand_plain [OF assms] assignCommand_def)
  qed
qed

lemma coherentAt_registerCommand:
  "plainCommandName a n \<Longrightarrow> coherentAt s n \<Longrightarrow> coherentAt (snd (registerCommand a n f s)) n"
  by (simp add: coherentAt_def boundTo_def registerCommand_plain compareNotifyContext_def
      commandObserver_def Observer_def)

lemma registerCommands_result:
  assumes "plainCommandName a n"
  shows "fs \<noteq> [] \<Longrightarrow> coherentAt s n \<Longrightarrow>
     fst (registerCommands a n fs s) = Inr () \<and>
     coherentAt (snd (registerCommands a n fs s)) n \<and>
     commandMap (snd (registerCommands a n fs s)) n = Some (last fs) \<and>
     calls (snd (registerCommands a n fs s)) = calls s"
proof (induction fs arbitrary: s)
  case Nil
  then show ?case
    by simp
next
  case (Cons f fs)
  obtain r s' where step: "registerCommand a n f s = (r, s')"
    by (cases "registerCommand a n f s")
  have r: "r = Inr ()"
    using registerCommand_plain(1) [OF assms, of f s] step by simp
  have c: "coherentAt s' n"
    using coherentAt_registerCommand [OF assms Cons.prems(2), of f] step by simp
  have m: "commandMap s' n = Some f"
    using registerCommand_plain(3) [OF assms, of f s] step by simp
  have l: "calls s' = calls s"
    using registerCommand_plain(4) [OF assms, of f s] step by simp
  show ?case
  proof (cases "fs = []")
    case True
    then show ?thesis
      using step r c m l by simp
  next
    case False
    then show ?thesis
      using Cons.IH [OF False c] step r l by simp
  qed
qed

lemma registerCommands_others:
  assumes "plainCommandName a n"
  shows "set (observersOf (snd (registerCommands a n fs s)) n')
           \<subseteq> insert commandObserver (set (observersOf s n'))"
proof (induction fs arbitrary: s)
  case Nil
  then show ?case
    by auto
next
  case (Cons f fs)
  obtain r s' where step: "registerCommand a n f s = (r, s')"
    by (cases "registerCommand a n f s")
  have r: "r = Inr ()"
    using registerCommand_plain(1) [OF assms, of f s] step by simp
  have "observersOf s' n' =
          (if n' = n \<and> commandMap s n = None then observersOf s n @ [commandObserver]
           else observersOf s n')"
    using registerCommand_plain(2) [OF assms, of f s n'] step by simp
  then have "set (observersOf s' n') \<subseteq> insert commandObserver (set (observersOf s n'))"
    by auto
  then show ?case
    using Cons.IH [of s'] step r by auto
qed

lemma notifyObserver_calls_other:
  "ctx ob \<noteq> TheController \<Longrightarrow> calls (snd (notifyObserver a ob n s)) = calls s @ [Notify ob n]"
  by (simp add: notifyObserver_def callout_calls called_def split: handler.splits)

text \<open>
  Notifying the observer that \<open>registerCommand\<close> installs runs the application's code
  for the command of the notification's name.
\<close>

lemma notifyObserver_command:
  "lookupCommand a s (name n) = Value f \<Longrightarrow>
     notifyObserver a commandObserver n s
       = callout a (Execute f n) (called (Notify commandObserver n) s)"
  by (simp add: notifyObserver_def commandObserver_def Observer_def executeCommand_def
      called_def lookupCommand_calls)

lemma notifyObserver_calls_command:
  "lookupCommand a s (name n) = Value f \<Longrightarrow>
     calls (snd (notifyObserver a commandObserver n s))
       = calls s @ [Notify commandObserver n, Execute f n]"
  by (simp add: notifyObserver_command callout_calls called_def)

lemma loop_no_command:
  "\<forall>ob \<in> set (drop i observers). ctx ob \<noteq> TheController \<Longrightarrow>
     \<exists>d. calls (snd (notifyObservers_loop a n observers i s)) = calls s @ d \<and> executed d = []"
proof (induction a n observers i s rule: notifyObservers_loop.induct)
  case (1 a n observers i s)
  show ?case
  proof (cases "i < length observers")
    case False
    then have "notifyObservers_loop a n observers i s = (Inr (), s)"
      by (simp add: notifyObservers_loop.simps)
    then show ?thesis
      by simp
  next
    case True
    obtain r s' where step: "notifyObserver a (observers ! i) n s = (r, s')"
      by (cases "notifyObserver a (observers ! i) n s")
    have "observers ! i \<in> set (drop i observers)"
      using True by (simp add: Cons_nth_drop_Suc [symmetric])
    then have "ctx (observers ! i) \<noteq> TheController"
      using "1.prems" by blast
    then have c: "calls s' = calls s @ [Notify (observers ! i) n]"
      using notifyObserver_calls_other [of "observers ! i" a n s] step by simp
    show ?thesis
    proof (cases r)
      case (Inl e)
      then have "notifyObservers_loop a n observers i s = (Inl e, s')"
        using True step by (simp add: notifyObservers_loop.simps [of a n observers i s])
      then show ?thesis
        using c by simp
    next
      case (Inr u)
      then have unf: "notifyObservers_loop a n observers i s
                        = notifyObservers_loop a n observers (i + 1) s'"
        using True step by (simp add: notifyObservers_loop.simps [of a n observers i s])
      have "\<forall>ob \<in> set (drop (i + 1) observers). ctx ob \<noteq> TheController"
        using "1.prems" set_drop_subset_set_drop [of i "i + 1" observers] by auto
      then have "\<exists>d. calls (snd (notifyObservers_loop a n observers (i + 1) s')) = calls s' @ d
                    \<and> executed d = []"
        using "1.IH" [OF True] step Inr by simp
      then obtain d where
        "calls (snd (notifyObservers_loop a n observers (i + 1) s')) = calls s' @ d"
        "executed d = []"
        by blast
      then show ?thesis
        using unf c by simp
    qed
  qed
qed

lemma loop_one_command:
  assumes "filter (\<lambda>ob. ctx ob = TheController) (drop i observers) = [commandObserver]"
    and "\<forall>ob \<in> set observers. ctx ob \<noteq> TheController \<longrightarrow> considerate a n ob"
    and "lookupCommand a s (name n) = Value f"
  shows "\<exists>d. calls (snd (notifyObservers_loop a n observers i s)) = calls s @ d \<and>
             executed d = [(f, n)]"
  using assms
proof (induction a n observers i s rule: notifyObservers_loop.induct)
  case (1 a n observers i s)
  have True: "i < length observers"
  proof (rule ccontr)
    assume "\<not> i < length observers"
    then have "drop i observers = []"
      by simp
    then show False
      using "1.prems"(1) by simp
  qed
  have dr: "drop i observers = observers ! i # drop (i + 1) observers"
    using True by (simp add: Cons_nth_drop_Suc)
  obtain r s' where step: "notifyObserver a (observers ! i) n s = (r, s')"
    by (cases "notifyObserver a (observers ! i) n s")
  show ?case
  proof (cases "ctx (observers ! i) = TheController")
    case c: True
    have hd: "observers ! i = commandObserver"
      and rest: "filter (\<lambda>ob. ctx ob = TheController) (drop (i + 1) observers) = []"
      using "1.prems"(1) c unfolding dr by simp_all
    have no: "\<forall>ob \<in> set (drop (i + 1) observers). ctx ob \<noteq> TheController"
      using rest by (simp add: filter_empty_conv)
    have cl: "calls s' = calls s @ [Notify commandObserver n, Execute f n]"
      using notifyObserver_calls_command [OF "1.prems"(3)] step hd by simp
    show ?thesis
    proof (cases r)
      case (Inl e)
      then have "notifyObservers_loop a n observers i s = (Inl e, s')"
        using True step by (simp add: notifyObservers_loop.simps [of a n observers i s])
      then show ?thesis
        using cl by simp
    next
      case (Inr u)
      then have unf: "notifyObservers_loop a n observers i s
                        = notifyObservers_loop a n observers (i + 1) s'"
        using True step by (simp add: notifyObservers_loop.simps [of a n observers i s])
      obtain d where "calls (snd (notifyObservers_loop a n observers (i + 1) s')) = calls s' @ d"
          "executed d = []"
        using loop_no_command [OF no, of a n s'] by blast
      then show ?thesis
        using unf cl by (simp add: executed_append)
    qed
  next
    case c: False
    have rest: "filter (\<lambda>ob. ctx ob = TheController) (drop (i + 1) observers) = [commandObserver]"
      using "1.prems"(1) c unfolding dr by simp
    have "observers ! i \<in> set observers"
      using True by simp
    then have cons: "considerate a n (observers ! i)"
      using "1.prems"(2) c by blast
    have r: "r = Inr ()"
      using cons step by (auto simp: considerate_def dest: spec [of _ s])
    have cm: "lookupCommand a s' (name n) = Value f"
      using cons step "1.prems"(3) by (auto simp: considerate_def dest: spec [of _ s])
    have cl: "calls s' = calls s @ [Notify (observers ! i) n]"
      using notifyObserver_calls_other [OF c, of a n s] step by simp
    have unf: "notifyObservers_loop a n observers i s
                 = notifyObservers_loop a n observers (i + 1) s'"
      using True step r by (simp add: notifyObservers_loop.simps [of a n observers i s])
    have "\<exists>d. calls (snd (notifyObservers_loop a n observers (i + 1) s')) = calls s' @ d \<and>
              executed d = [(f, n)]"
      using "1.IH" [OF True _ _ rest "1.prems"(2) cm] step r by simp
    then obtain d where
      "calls (snd (notifyObservers_loop a n observers (i + 1) s')) = calls s' @ d"
      "executed d = [(f, n)]"
      by blast
    then show ?thesis
      using unf cl by simp
  qed
qed

text \<open>A broadcast to the controller's observer alone is the run of the command.\<close>

lemma notifyObservers_command_alone:
  assumes "observerMap s (name nt) = Some [commandObserver]"
    and "lookupCommand a s (name nt) = Value f"
  shows "notifyObservers a nt s
           = callout a (Execute f nt) (called (Notify commandObserver nt) s)"
proof -
  obtain r s' where c: "callout a (Execute f nt) (called (Notify commandObserver nt) s) = (r, s')"
    by (cases "callout a (Execute f nt) (called (Notify commandObserver nt) s)")
  have "notifyObserver a commandObserver nt s = (r, s')"
    using notifyObserver_command [OF assms(2)] c by simp
  then have "notifyObservers_loop a nt [commandObserver] 0 s = (r, s')"
    by (cases r) (simp_all add: notifyObservers_loop.simps)
  then show ?thesis
    using assms(1) c by (simp add: notifyObservers_def lookup_own)
qed

text \<open>
  Registration of commands under a name \<open>n\<close> under which the command registry inherits
  nothing. Start in a state in which the controller's bookkeeping for \<open>n\<close> is
  coherent (a fresh core is) and call \<open>registerCommand n\<close> with the factories
  \<open>f\<^sub>1, \<dots>, f\<^sub>k\<close>, \<open>k \<ge> 1\<close>, in succession. Every call returns; then the observer list
  of \<open>n\<close> has exactly one observer bound to the controller, and the command registry
  holds \<open>f\<^sub>k\<close> for \<open>n\<close>. When the other observers of \<open>n\<close> are considerate, one broadcast
  of a notification named \<open>n\<close> runs exactly one command, built by \<open>f\<^sub>k\<close>, once. When
  there are no other observers of \<open>n\<close>, the broadcast is the run of that command: its
  completion and its effect on the state are those of the application's code for it.
\<close>

lemma registerCommand_one_observer:
  assumes "plainCommandName a n" and "fs \<noteq> []" and "coherentAt s n"
  shows "fst (registerCommands a n fs s) = Inr () \<and>
     boundTo TheController (snd (registerCommands a n fs s)) n = [commandObserver] \<and>
     commandMap (snd (registerCommands a n fs s)) n = Some (last fs) \<and>
     (name nt = n \<and>
      (\<forall>ob \<in> set (observersOf s n). ctx ob \<noteq> TheController \<longrightarrow> considerate a nt ob) \<longrightarrow>
        executed (since (snd (registerCommands a n fs s))
          (snd (notifyObservers a nt (snd (registerCommands a n fs s)))))
          = [(last fs, nt)]) \<and>
     (name nt = n \<and> filter (\<lambda>ob. ctx ob \<noteq> TheController) (observersOf s n) = [] \<longrightarrow>
        notifyObservers a nt (snd (registerCommands a n fs s))
          = callout a (Execute (last fs) nt)
              (called (Notify commandObserver nt) (snd (registerCommands a n fs s))))"
proof -
  let ?s' = "snd (registerCommands a n fs s)"
  note res = registerCommands_result [OF assms]
  have 1: "boundTo TheController ?s' n = [commandObserver]"
    using res by (simp add: coherentAt_def)
  obtain observers where l: "observerMap ?s' n = Some observers"
    using 1 by (cases "observerMap ?s' n") (simp_all add: boundTo_def observersOf_def)
  have ob: "observersOf ?s' n = observers"
    using l by (simp add: observersOf_def)
  have lk: "lookupCommand a ?s' n = Value (last fs)"
    using res by (simp add: lookupCommand_plain [OF assms(1)])
  have 3: "executed (since ?s' (snd (notifyObservers a nt ?s'))) = [(last fs, nt)]"
    if nm: "name nt = n"
      and others: "\<forall>ob \<in> set (observersOf s n). ctx ob \<noteq> TheController \<longrightarrow> considerate a nt ob"
  proof -
    have f: "filter (\<lambda>ob. ctx ob = TheController) (drop 0 observers) = [commandObserver]"
      using 1 ob by (simp add: boundTo_def compareNotifyContext_def)
    have o: "\<forall>ob \<in> set observers. ctx ob \<noteq> TheController \<longrightarrow> considerate a nt ob"
      using others registerCommands_others [OF assms(1), of fs s n] ob
      by (auto simp: commandObserver_def Observer_def)
    have cm: "lookupCommand a ?s' (name nt) = Value (last fs)"
      using lk nm by simp
    obtain d where "calls (snd (notifyObservers_loop a nt observers 0 ?s')) = calls ?s' @ d"
        "executed d = [(last fs, nt)]"
      using loop_one_command [OF f o cm] by blast
    then show ?thesis
      using l nm by (simp add: notifyObservers_def since_append lookup_own)
  qed
  have 4: "notifyObservers a nt ?s'
          = callout a (Execute (last fs) nt) (called (Notify commandObserver nt) ?s')"
    if nm: "name nt = n"
      and alone: "filter (\<lambda>ob. ctx ob \<noteq> TheController) (observersOf s n) = []"
  proof -
    have "set observers \<subseteq> insert commandObserver (set (observersOf s n))"
      using registerCommands_others [OF assms(1), of fs s n] ob by simp
    then have "\<forall>x \<in> set observers. ctx x = TheController"
      using alone by (auto simp: filter_empty_conv commandObserver_def Observer_def)
    then have "filter (\<lambda>x. ctx x = TheController) observers = observers"
      by simp
    then have "observers = [commandObserver]"
      using 1 ob by (simp add: boundTo_def compareNotifyContext_def)
    then show ?thesis
      using notifyObservers_command_alone [of ?s' nt a "last fs"] l lk nm by simp
  qed
  show ?thesis
    using 1 res 3 4 by blast
qed

lemma plainCommandName_quiet: "plainCommandName quiet ''note''"
  by (simp add: plainCommandName_def quiet_def inherited_plain plain_names)

lemma reregistering_state:
  "observerMap reregistering ''note'' = Some [observerA]"
  "commandMap reregistering ''note'' = None"
  by (simp_all add: reregistering_def removeCommand_def hasCommand_def registerCommand_def
      registerObserver_def initial_def removeObserver_def Let_def observerA_def Observer_def
      compareNotifyContext_def splice1_def lookup_def lookupCommand_def assignCommand_def
      inherited_plain)

lemma reregistering_coherent: "coherentAt reregistering ''note''"
  by (simp add: coherentAt_def boundTo_def observersOf_def reregistering_state
      compareNotifyContext_def observerA_def Observer_def)

lemma considerate_quiet: "considerate quiet ping observerA"
  by (simp add: considerate_def notifyObserver_def observerA_def Observer_def callout_def
      quiet_react lookupCommand_calls)

text \<open>
  The repository's test of re-registration: after a command for \<open>note\<close> was registered
  and removed, three registrations leave one observer of the controller, and one
  broadcast runs the last factory's command once.
\<close>

lemma registerCommand_one_observer_note:
  "boundTo TheController (snd (registerCommands quiet ''note'' [1, 2, 3] reregistering)) ''note''
     = [commandObserver] \<and>
   commandMap (snd (registerCommands quiet ''note'' [1, 2, 3] reregistering)) ''note'' = Some 3 \<and>
   executed (since (snd (registerCommands quiet ''note'' [1, 2, 3] reregistering))
     (snd (notifyObservers quiet ping (snd (registerCommands quiet ''note'' [1, 2, 3] reregistering)))))
     = [(3, ping)]"
proof -
  have n: "name ping = ''note''"
    by (simp add: ping_def)
  have o: "\<forall>ob \<in> set (observersOf reregistering ''note'').
             ctx ob \<noteq> TheController \<longrightarrow> considerate quiet ping ob"
    by (simp add: observersOf_def reregistering_state considerate_quiet)
  have "([1, 2, 3] :: factory list) \<noteq> []"
    by simp
  from registerCommand_one_observer [OF plainCommandName_quiet this reregistering_coherent,
      of ping] n o
  show ?thesis
    by simp
qed

text \<open>
  C1. The claim does not hold of the code for a name that the command registry inherits
  from \<open>Object.prototype\<close>, such as \<open>constructor\<close>. On a fresh core,
  \<open>registerCommand\<close> of \<open>constructor\<close> returns and stores the factory, but it finds the
  lookup of the name not to be null and installs no observer: the observer map has no
  list for the name and no observer bound to the controller. A broadcast of a
  notification of that name then runs no command: it throws a \<open>TypeError\<close>, the
  value that the observer map inherits under the name having no \<open>slice\<close>.
\<close>

theorem registerCommand_inherited_name_no_observer:
  "fst (registerCommand quiet ''constructor'' 1 (initial ())) = Inr () \<and>
   commandMap (snd (registerCommand quiet ''constructor'' 1 (initial ()))) ''constructor''
     = Some 1 \<and>
   observerMap (snd (registerCommand quiet ''constructor'' 1 (initial ()))) ''constructor''
     = None \<and>
   boundTo TheController (snd (registerCommand quiet ''constructor'' 1 (initial ())))
     ''constructor'' = [] \<and>
   fst (notifyObservers quiet summons (snd (registerCommand quiet ''constructor'' 1 (initial ()))))
     = Inl TypeError \<and>
   executed (since (snd (registerCommand quiet ''constructor'' 1 (initial ())))
     (snd (notifyObservers quiet summons
       (snd (registerCommand quiet ''constructor'' 1 (initial ())))))) = []"
  by (simp add: registerCommand_def lookupCommand_def assignCommand_def notifyObservers_def
      lookup_def initial_def summons_def boundTo_def observersOf_def since_def inherited_table)

subsection \<open>Removing a mediator\<close>

declare removeObserver_scan.simps [simp del]

lemma removeObserver_scan_eq:
  "removeObserver_scan c obs i = take i obs @ removeFirst c (drop i obs)"
proof (induction c obs i rule: removeObserver_scan.induct)
  case (1 c obs i)
  show ?case
  proof (cases "i < length obs")
    case False
    then show ?thesis
      by (simp add: removeObserver_scan.simps [of c obs i])
  next
    case True
    have dr: "drop i obs = obs ! i # drop (Suc i) obs"
      using True by (simp add: Cons_nth_drop_Suc)
    show ?thesis
    proof (cases "ctx (obs ! i) = c")
      case c: True
      then show ?thesis
        using True dr
        by (simp add: removeObserver_scan.simps [of c obs i] compareNotifyContext_def splice1_def)
    next
      case c: False
      have "removeObserver_scan c obs i = removeObserver_scan c obs (i + 1)"
        using True c by (simp add: removeObserver_scan.simps [of c obs i] compareNotifyContext_def)
      also have "\<dots> = take (i + 1) obs @ removeFirst c (drop (i + 1) obs)"
        using "1.IH" True c by (simp add: compareNotifyContext_def)
      also have "\<dots> = take i obs @ removeFirst c (drop i obs)"
        using True c dr by (simp add: take_Suc_conv_app_nth)
      finally show ?thesis .
    qed
  qed
qed




text \<open>
  Whether it returns or throws, \<open>removeObserver\<close> leaves the list of the name without
  its first observer bound to the context, and the other lists as they were.
\<close>

lemma observersOf_removeObserver:
  "observersOf (snd (removeObserver n c s)) n' =
     (if n' = n then removeFirst c (observersOf s n) else observersOf s n')"
proof (cases "observerMap s n")
  case None
  then have "snd (removeObserver n c s) = s"
    by (simp add: removeObserver_def lookup_def inherited_def split: option.splits)
  then show ?thesis
    using None by (simp add: observersOf_def)
next
  case (Some l)
  then show ?thesis
    by (simp add: removeObserver_def lookup_own Let_def observersOf_def removeObserver_scan_eq)
qed


lemma removeObserver_fields:
  "mediatorMap (snd (removeObserver n c s)) = mediatorMap s"
  "commandMap (snd (removeObserver n c s)) = commandMap s"
  "proxyMap (snd (removeObserver n c s)) = proxyMap s"
  "calls (snd (removeObserver n c s)) = calls s"
  "app (snd (removeObserver n c s)) = app s"
  by (simp_all add: removeObserver_def Let_def split: found.splits option.splits)



lemma removeMediator_loop_fields:
  "mediatorMap (snd (removeMediator_loop is m s)) = mediatorMap s \<and>
   calls (snd (removeMediator_loop is m s)) = calls s"
proof (induction "is" arbitrary: s)
  case Nil
  then show ?case
    by simp
next
  case (Cons i "is")
  obtain r s' where step: "removeObserver i (TheMediator m) s = (r, s')"
    by (cases "removeObserver i (TheMediator m) s")
  have "calls s' = calls s" "mediatorMap s' = mediatorMap s"
    using removeObserver_fields [of i "TheMediator m" s] step by simp_all
  then show ?case
    using step Cons.IH [of s'] by (cases r) simp_all
qed

text \<open>
  The loop of \<open>removeMediator\<close>, when it returns: from the list of each name, the
  first observer bound to the mediator was removed as many times as the interests name
  it.
\<close>

lemma removeMediator_loop_returns:
  "fst (removeMediator_loop is m s) = Inr () \<Longrightarrow>
     observersOf (snd (removeMediator_loop is m s)) n
       = (removeFirst (TheMediator m) ^^ count_list is n) (observersOf s n)"
proof (induction "is" arbitrary: s)
  case Nil
  then show ?case
    by simp
next
  case (Cons i "is")
  obtain r s' where step: "removeObserver i (TheMediator m) s = (r, s')"
    by (cases "removeObserver i (TheMediator m) s")
  have r: "r = Inr ()"
    using Cons.prems step by (cases r) simp_all
  have unf: "removeMediator_loop (i # is) m s = removeMediator_loop is m s'"
    using step r by simp
  have o: "observersOf s' n
             = (if n = i then removeFirst (TheMediator m) (observersOf s i) else observersOf s n)"
    using observersOf_removeObserver [of i "TheMediator m" s n] step by simp
  have "observersOf (snd (removeMediator_loop is m s')) n
          = (removeFirst (TheMediator m) ^^ count_list is n) (observersOf s' n)"
    using Cons.IH [of s'] Cons.prems unf by simp
  then show ?case
    unfolding unf using o by (simp add: funpow_swap1)
qed



lemma observersOf_cong: "observerMap s' = observerMap s \<Longrightarrow> observersOf s' n = observersOf s n"
  by (simp add: observersOf_def)



text \<open>
  Under a name that the mediator map inherits from \<open>Object.prototype\<close> and under which
  no mediator is stored, \<open>removeMediator\<close> does not return null: it throws.
\<close>

lemma removeMediator_inherited_name:
  "mediatorMap s nm = None \<Longrightarrow> objectPrototype nm \<noteq> None \<Longrightarrow>
     removeMediator a nm s = (Inl TypeError, s)"
  by (auto simp: removeMediator_def lookup_def inherited_def)

text \<open>
  What \<open>removeMediator\<close> does with a mediator that is stored under the name, and the
  results of the three pieces that it is made of.
\<close>

lemma removeMediator_stored:
  assumes "mediatorMap s nm = Some m"
    and "interestsOf a m s = (Inr interests, s1)"
    and "removeMediator_loop interests m s1 = (Inr (), s2)"
    and "callout a (OnRemove m) (s2\<lparr>mediatorMap := (mediatorMap s2)(nm := None)\<rparr>) = (Inr (), s3)"
  shows "removeMediator a nm s = (Inr (Some m), s3)"
  using assms by (simp add: removeMediator_def lookup_own)


lemmas eval_defs = registerMediator_def removeMediator_def registerObserver_def
  removeObserver_def initial_def Let_def callout_def interestsOf_def mediatorA_def
  observerA_def Observer_def compareNotifyContext_def splice1_def observersOf_def
  removeObserver_scan.simps since_def lookup_def inherited_plain mediatorObserver_def
  registerProxy_def assignProxy_def settings_def











subsection \<open>When the interests of a mediator are queried\<close>

lemma registerMediator_loop_calls: "calls (snd (registerMediator_loop is ob s)) = calls s"
proof (induction "is" arbitrary: s)
  case Nil
  then show ?case
    by simp
next
  case (Cons i "is")
  obtain r s' where step: "registerObserver i ob s = (r, s')"
    by (cases "registerObserver i ob s")
  have "calls s' = calls s"
    using registerObserver_fields(4) [of i ob s] step by simp
  then show ?case
    using step Cons.IH [of s'] by (cases r) simp_all
qed

lemma registerMediator_queries:
  "queried (since s (snd (registerMediator a m s)))
     = (if mediatorMap s (mediatorName m) = None \<and> objectPrototype (mediatorName m) = None
        then [m] else [])"
proof (cases "lookup (mediatorMap s) (mediatorName m) = Undefined")
  case False
  then show ?thesis
    by (simp add: registerMediator_def since_def lookup_Undefined)
next
  case True
  let ?s1 = "s\<lparr>mediatorMap := (mediatorMap s)(mediatorName m \<mapsto> m)\<rparr>"
  obtain r s2 where q: "interestsOf a m ?s1 = (r, s2)"
    by (cases "interestsOf a m ?s1")
  have c2: "calls s2 = calls s @ [ListNotificationInterests m]"
    using interestsOf_calls [of a m ?s1] q by simp
  have "\<exists>d. calls (snd (registerMediator a m s)) = calls s @ ListNotificationInterests m # d \<and>
            queried d = []"
  proof (cases r)
    case (Inl e)
    then show ?thesis
      using True q c2 by (simp add: registerMediator_def)
  next
    case (Inr interests)
    let ?ob = "Observer (HandleNotification m) (TheMediator m)"
    obtain r3 s3 where l: "(if length interests > 0
                    then registerMediator_loop interests ?ob s2 else (Inr (), s2)) = (r3, s3)"
      by (cases "(if length interests > 0
                    then registerMediator_loop interests ?ob s2 else (Inr (), s2))")
    have c3: "calls s3 = calls s2"
      using registerMediator_loop_calls [of interests ?ob s2] l by (auto split: if_splits)
    show ?thesis
    proof (cases r3)
      case (Inl e)
      then show ?thesis
        using True q \<open>r = Inr interests\<close> l c2 c3
        by (simp add: registerMediator_def del: length_greater_0_conv)
    next
      case (Inr u)
      then have "snd (registerMediator a m s) = snd (callout a (OnRegister m) s3)"
        using True q \<open>r = Inr interests\<close> l
        by (simp add: registerMediator_def del: length_greater_0_conv)
      then have "calls (snd (registerMediator a m s))
                   = calls s @ ListNotificationInterests m # [OnRegister m]"
        using c2 c3 by (simp add: callout_calls)
      then show ?thesis
        by simp
    qed
  qed
  then show ?thesis
    using True by (auto simp: since_def lookup_Undefined)
qed

lemma removeMediator_queries:
  "queried (since s (snd (removeMediator a nm s)))
     = (case mediatorMap s nm of None \<Rightarrow> [] | Some m \<Rightarrow> [m])"
proof (cases "mediatorMap s nm")
  case None
  then have "snd (removeMediator a nm s) = s"
    by (simp add: removeMediator_def lookup_def inherited_def split: option.splits)
  then show ?thesis
    using None by (simp add: since_def)
next
  case (Some m)
  obtain r1 s1 where q: "interestsOf a m s = (r1, s1)"
    by (cases "interestsOf a m s")
  have c1: "calls s1 = calls s @ [ListNotificationInterests m]"
    using interestsOf_calls [of a m s] q by simp
  have "\<exists>d. calls (snd (removeMediator a nm s)) = calls s @ ListNotificationInterests m # d \<and>
            queried d = []"
  proof (cases r1)
    case (Inl e)
    then show ?thesis
      using Some q c1 by (simp add: removeMediator_def lookup_own)
  next
    case (Inr interests)
    obtain r2 s2 where loop: "removeMediator_loop interests m s1 = (r2, s2)"
      by (cases "removeMediator_loop interests m s1")
    have c2: "calls s2 = calls s @ [ListNotificationInterests m]"
      using removeMediator_loop_fields [of interests m s1] loop c1 by simp
    show ?thesis
    proof (cases r2)
      case (Inl e)
      then show ?thesis
        using Some q \<open>r1 = Inr interests\<close> loop c2 by (simp add: removeMediator_def lookup_own)
    next
      case (Inr u)
      let ?s3 = "s2\<lparr>mediatorMap := (mediatorMap s2)(nm := None)\<rparr>"
      have "snd (removeMediator a nm s) = snd (callout a (OnRemove m) ?s3)"
        using Some q \<open>r1 = Inr interests\<close> loop Inr
        by (simp add: removeMediator_def lookup_own snd_rethrow)
      then have "calls (snd (removeMediator a nm s))
                   = calls s @ ListNotificationInterests m # [OnRemove m]"
        using c2 by (simp add: callout_calls)
      then show ?thesis
        by simp
    qed
  qed
  then show ?thesis
    using Some by (auto simp: since_def)
qed

lemma notifyObservers_queries: "queried (since s (snd (notifyObservers a nt s))) = []"
proof (cases "lookup (observerMap s) (name nt)")
  case Undefined
  then show ?thesis
    by (simp add: notifyObservers_def since_def)
next
  case (Other x)
  then show ?thesis
    by (simp add: notifyObservers_def since_def)
next
  case (Value observers)
  obtain d where "calls (snd (notifyObservers_loop a nt observers 0 s)) = calls s @ d"
      and "queried d = []"
    using notifyObservers_loop_prefix [of a nt observers 0 s] by blast
  then show ?thesis
    using Value by (simp add: notifyObservers_def since_append)
qed

text \<open>
  The observers that \<open>removeMediator\<close> removes are those named by the answer it is
  given: when it returns, the list of each name has lost its first observer bound to
  the mediator as many times as that answer names it.
\<close>

lemma removeMediator_uses_answer:
  assumes reg: "mediatorMap s nm = Some m"
    and ans: "fst (listNotificationInterests a m s) = Inr interests"
    and ret: "fst (removeMediator a nm s) = Inr r"
    and keep: "keepsView a (OnRemove m)"
  shows "r = Some m"
    and "observersOf (snd (removeMediator a nm s)) n
           = (removeFirst (TheMediator m) ^^ count_list interests n)
               (observersOf (snd (listNotificationInterests a m s)) n)"
proof -
  obtain r1 s1 where q: "interestsOf a m s = (r1, s1)"
    by (cases "interestsOf a m s")
  have r1: "r1 = Inr interests"
    using ans q interestsOf_fst [of a m s] by simp
  have o1: "observerMap s1 = observerMap (snd (listNotificationInterests a m s))"
    using q interestsOf_snd [of a m s] by simp
  obtain r2 s2 where loop: "removeMediator_loop interests m s1 = (r2, s2)"
    by (cases "removeMediator_loop interests m s1")
  have r2: "r2 = Inr ()"
    using ret reg q r1 loop by (cases r2) (simp_all add: removeMediator_def lookup_own)
  let ?s3 = "s2\<lparr>mediatorMap := (mediatorMap s2)(nm := None)\<rparr>"
  obtain r4 s4 where hook: "callout a (OnRemove m) ?s3 = (r4, s4)"
    by (cases "callout a (OnRemove m) ?s3")
  have r4: "r4 = Inr ()"
    using ret reg q r1 loop r2 hook by (cases r4) (simp_all add: removeMediator_def lookup_own)
  have res: "removeMediator a nm s = (Inr (Some m), s4)"
    using removeMediator_stored [OF reg] q r1 loop r2 hook r4 by simp
  show "r = Some m"
    using ret res by simp
  have "s4 = (snd (react a (OnRemove m) ?s3))\<lparr>calls := calls ?s3 @ [OnRemove m]\<rparr>"
    using hook callout_snd [of a "OnRemove m" ?s3] by simp
  then have o4: "observerMap s4 = observerMap s2"
    using keep by (simp add: keepsView_def)
  have "observersOf s2 n = (removeFirst (TheMediator m) ^^ count_list interests n) (observersOf s1 n)"
    using removeMediator_loop_returns [of interests m s1 n] loop r2 by simp
  then show "observersOf (snd (removeMediator a nm s)) n
           = (removeFirst (TheMediator m) ^^ count_list interests n)
               (observersOf (snd (listNotificationInterests a m s)) n)"
    by (simp add: res observersOf_cong [OF o4] observersOf_cong [OF o1])
qed

lemmas configured_eval = configured_def fickle_def eval_defs notifyObservers_def
  notifyObservers_loop.simps notifyObserver_def ping_def

text \<open>
  C3 states that the interests are queried once, at registration, and never again, in
  particular not by \<open>removeMediator\<close>, which would use the names obtained at
  registration. In \<open>configured\<close> the mediator was registered for \<open>note\<close> and \<open>other\<close>.
  \<open>removeMediator\<close> queries it again, is answered \<open>other\<close> alone, and removes the
  observer of \<open>other\<close> only: the mediator is returned as removed, its observer for
  \<open>note\<close> stays, and a broadcast of \<open>note\<close> still notifies it.
\<close>

theorem removeMediator_queries_again:
  "since (initial ()) (snd (registerMediator fickle mediatorA (initial ())))
     = [ListNotificationInterests mediatorA, OnRegister mediatorA] \<and>
   observersOf configured ''note'' = [mediatorObserver mediatorA] \<and>
   observersOf configured ''other'' = [mediatorObserver mediatorA] \<and>
   since configured (snd (removeMediator fickle ''panel'' configured))
     = [ListNotificationInterests mediatorA, OnRemove mediatorA] \<and>
   fst (removeMediator fickle ''panel'' configured) = Inr (Some mediatorA) \<and>
   observersOf (snd (removeMediator fickle ''panel'' configured)) ''other'' = [] \<and>
   observersOf (snd (removeMediator fickle ''panel'' configured)) ''note''
     = [mediatorObserver mediatorA] \<and>
   notified (since (snd (removeMediator fickle ''panel'' configured))
      (snd (notifyObservers fickle ping (snd (removeMediator fickle ''panel'' configured)))))
     = [mediatorObserver mediatorA]"
  by (simp add: configured_eval)

text \<open>
  C3, as amended. \<open>registerMediator\<close> queries \<open>m.listNotificationInterests()\<close> once
  when it stores \<open>m\<close>, and not at all when it returns without storing it.
  \<open>removeMediator\<close> of a name under which a mediator is stored queries that mediator
  once more, and the names used for the removal of observers are those of the answer
  given at that moment: when \<open>removeMediator\<close> returns, it returns the stored mediator,
  and the list of each name has lost its first observer bound to the mediator as many
  times as that answer names it (here \<open>m.onRemove\<close> is taken to leave the observer map
  alone). \<open>removeMediator\<close> of a name under which no mediator is stored,
  \<open>notifyObservers\<close>, \<open>registerObserver\<close> and \<open>removeObserver\<close> do not query.
\<close>

theorem interests_queried_at_registration_and_removal:
  "queried (since s (snd (registerMediator a m s)))
     = (if mediatorMap s (mediatorName m) = None \<and> objectPrototype (mediatorName m) = None
        then [m] else []) \<and>
   queried (since s (snd (removeMediator a nm s)))
     = (case mediatorMap s nm of None \<Rightarrow> [] | Some m' \<Rightarrow> [m']) \<and>
   (mediatorMap s nm = Some m \<and> fst (listNotificationInterests a m s) = Inr interests \<and>
    fst (removeMediator a nm s) = Inr r \<and> keepsView a (OnRemove m) \<longrightarrow>
      r = Some m \<and>
      (\<forall>n. observersOf (snd (removeMediator a nm s)) n
             = (removeFirst (TheMediator m) ^^ count_list interests n)
                 (observersOf (snd (listNotificationInterests a m s)) n))) \<and>
   queried (since s (snd (notifyObservers a nt s))) = [] \<and>
   since s (snd (registerObserver n ob s)) = [] \<and>
   since s (snd (removeObserver n c s)) = []"
proof -
  have 3: "mediatorMap s nm = Some m \<and> fst (listNotificationInterests a m s) = Inr interests \<and>
    fst (removeMediator a nm s) = Inr r \<and> keepsView a (OnRemove m) \<longrightarrow>
      r = Some m \<and>
      (\<forall>n. observersOf (snd (removeMediator a nm s)) n
             = (removeFirst (TheMediator m) ^^ count_list interests n)
                 (observersOf (snd (listNotificationInterests a m s)) n))"
  proof (rule impI)
    assume h: "mediatorMap s nm = Some m \<and>
      fst (listNotificationInterests a m s) = Inr interests \<and>
      fst (removeMediator a nm s) = Inr r \<and> keepsView a (OnRemove m)"
    have reg: "mediatorMap s nm = Some m"
      and ans: "fst (listNotificationInterests a m s) = Inr interests"
      and ret: "fst (removeMediator a nm s) = Inr r"
      and keep: "keepsView a (OnRemove m)"
      using h by simp_all
    show "r = Some m \<and>
      (\<forall>n. observersOf (snd (removeMediator a nm s)) n
             = (removeFirst (TheMediator m) ^^ count_list interests n)
                 (observersOf (snd (listNotificationInterests a m s)) n))"
      using removeMediator_uses_answer [OF reg ans ret keep] by simp
  qed
  have 5: "since s (snd (registerObserver n ob s)) = []"
    by (simp add: since_def registerObserver_fields)
  have 6: "since s (snd (removeObserver n c s)) = []"
    by (simp add: since_def removeObserver_fields)
  show ?thesis
    by (intro conjI)
      (rule registerMediator_queries, rule removeMediator_queries, rule 3,
       rule notifyObservers_queries, rule 5, rule 6)
qed

theorem interests_queried_at_registration_and_removal_witness:
  "mediatorMap (initial ()) (mediatorName mediatorA) = None \<and>
   objectPrototype (mediatorName mediatorA) = None \<and>
   queried (since (initial ()) (snd (registerMediator fickle mediatorA (initial ())))) = [mediatorA] \<and>
   mediatorMap configured ''panel'' = Some mediatorA \<and>
   queried (since configured (snd (removeMediator fickle ''panel'' configured))) = [mediatorA] \<and>
   fst (listNotificationInterests fickle mediatorA configured) = Inr [''other''] \<and>
   fst (removeMediator fickle ''panel'' configured) = Inr (Some mediatorA) \<and>
   keepsView fickle (OnRemove mediatorA) \<and>
   observersOf (snd (listNotificationInterests fickle mediatorA configured)) ''note''
     = [mediatorObserver mediatorA] \<and>
   observersOf (snd (removeMediator fickle ''panel'' configured)) ''note''
     = [mediatorObserver mediatorA] \<and>
   observersOf (snd (listNotificationInterests fickle mediatorA configured)) ''other''
     = [mediatorObserver mediatorA] \<and>
   observersOf (snd (removeMediator fickle ''panel'' configured)) ''other''
     = removeFirst (TheMediator mediatorA) [mediatorObserver mediatorA]"
proof -
  have 1: "mediatorMap (initial ()) (mediatorName mediatorA) = None"
    by (simp add: initial_def)
  have 2: "objectPrototype (mediatorName mediatorA) = None"
    by (simp add: mediatorA_def plain_names)
  have 3: "mediatorMap configured ''panel'' = Some mediatorA"
    by (simp add: configured_eval)
  have 4: "fst (listNotificationInterests fickle mediatorA configured) = Inr [''other'']"
    by (simp add: configured_eval)
  have 5: "fst (removeMediator fickle ''panel'' configured) = Inr (Some mediatorA)"
    by (simp add: configured_eval)
  have 6: "keepsView fickle (OnRemove mediatorA)"
    by (simp add: keepsView_def fickle_def)
  have 7: "observersOf (snd (listNotificationInterests fickle mediatorA configured)) ''note''
             = [mediatorObserver mediatorA]"
      "observersOf (snd (listNotificationInterests fickle mediatorA configured)) ''other''
             = [mediatorObserver mediatorA]"
    by (simp_all add: configured_eval)
  show ?thesis
    using interests_queried_at_registration_and_removal
        [of "initial ()" fickle mediatorA "''panel''" "[''other'']" "Some mediatorA"]
      interests_queried_at_registration_and_removal
        [of configured fickle mediatorA "''panel''" "[''other'']" "Some mediatorA"]
      1 2 3 4 5 6 7
    by simp
qed


end
